theory Spec2Isabelle
  imports Main "HOL-Library.Multiset" "HOL-Library.Product_Lexorder"
begin

section \<open>Sleep Routine Designer: the action handlers of \<open>src/actions/index.ts\<close>\<close>

text \<open>
  The eight handlers of the exported \<open>server\<close> object are embedded as functions that take
  the validated input, the request context and the storage state, and return the outcome
  (an \<open>ActionError\<close> code or the success payload) together with the storage state they
  leave behind. A handler that throws after a statement has run still returns the state
  that statement produced, as the source has no transaction around its statements.

  Three things come from outside the repository and are parameters of a handler:
  the value of \<open>new Date()\<close> (each handler reads the clock at most once) as \<open>now\<close>,
  the successive results of \<open>crypto.randomUUID()\<close> as a function \<open>uuid\<close> from the
  number of the call (counted from 0 inside one handler run) to the identifier, and the
  storage engine behind \<open>astro:db\<close>, modelled below.
\<close>

subsection \<open>Values of the host language\<close>

text \<open>
  An optional property of an input object: the key may be missing, present with the value
  \<open>undefined\<close>, or present with a value. Reading the property (\<open>input.key\<close>) gives
  \<open>undefined\<close> in the first two cases; \<open>key in input\<close> tells them apart.
\<close>

datatype 'a opt = Absent | Undefined | Present 'a

fun read_key :: "'a opt \<Rightarrow> 'a option" where
  "read_key Absent = None"
| "read_key Undefined = None"
| "read_key (Present v) = Some v"

fun has_key :: "'a opt \<Rightarrow> bool" where
  "has_key Absent = False"
| "has_key Undefined = True"
| "has_key (Present v) = True"

text \<open>Truthiness of a value that is a string or \<open>undefined\<close>: the empty string is falsy.\<close>

fun truthy_string :: "string option \<Rightarrow> bool" where
  "truthy_string None = False"
| "truthy_string (Some s) = (s \<noteq> [])"

text \<open>\<open>a ?? b\<close>\<close>

fun nullish :: "'a option \<Rightarrow> 'a \<Rightarrow> 'a" where
  "nullish None b = b"
| "nullish (Some a) b = a"

text \<open>A \<open>Date\<close> is its number of milliseconds since the epoch.\<close>

type_synonym date = int

text \<open>
  The codes of \<open>ActionError\<close>. The three first are thrown by the handlers; an exception
  that a handler does not catch (a statement rejected by the storage engine) reaches the
  caller as \<open>INTERNAL_SERVER_ERROR\<close>.
\<close>

datatype error = UNAUTHORIZED | NOT_FOUND | FORBIDDEN | INTERNAL_SERVER_ERROR

text \<open>
  The integers that a JavaScript number holds exactly,
  \<open>Number.MIN_SAFE_INTEGER .. Number.MAX_SAFE_INTEGER\<close>.
\<close>

definition safe_integer :: "int \<Rightarrow> bool" where
  "safe_integer v = (- 9007199254740991 \<le> v \<and> v \<le> 9007199254740991)"

subsection \<open>The schema: the three tables declared with \<open>defineTable\<close>\<close>

record routine_row =
  r_id :: string
  r_userId :: string
  r_name :: string
  r_goalDescription :: "string option"
  r_targetBedTimeLocal :: "string option"
  r_targetWakeTimeLocal :: "string option"
  r_timeZone :: "string option"
  r_notes :: "string option"
  r_isActive :: bool
  r_createdAt :: date
  r_updatedAt :: date

record step_row =
  s_id :: string
  s_routineId :: string
  s_orderIndex :: int
  s_title :: string
  s_description :: "string option"
  s_minutesBeforeBed :: "int option"
  s_createdAt :: date

record log_row =
  l_id :: string
  l_userId :: string
  l_routineId :: "string option"
  l_sleepDate :: date
  l_bedTime :: "date option"
  l_wakeTime :: "date option"
  l_sleepQualityScore :: "int option"
  l_notes :: "string option"
  l_createdAt :: date

subsection \<open>The storage engine\<close>

text \<open>
  A table is the list of its rows in insertion order. A statement is one \<open>await db...\<close> of
  the source; the state records, in \<open>trace\<close>, every statement sent so far (also one that the
  engine rejects), so that a handler that touches storage is told apart from one that does not.
  \<open>where\<close> keeps the rows satisfying the condition; \<open>insert\<close> appends; \<open>update\<close> rewrites
  the matching rows in place and reports how many matched (\<open>rowsAffected\<close>);
  \<open>delete\<close> removes the matching rows; \<open>orderBy\<close> is a stable sort on the key
  (rows with equal keys stay in insertion order); \<open>limit\<close> and \<open>offset\<close> cut the sorted
  rows, a negative limit meaning no limit and a negative offset meaning none, as in SQLite.

  A statement that the engine rejects changes no row and throws; no handler catches it, so
  the action ends with \<open>INTERNAL_SERVER_ERROR\<close>. Three rejections are modelled:
  \<^item> the foreign key of \<open>SleepLogs.routineId\<close> to \<open>SleepRoutines.id\<close>: the insert of a log,
    or an update whose \<open>set\<close> holds \<open>routineId\<close> and that matches a row, is rejected when no
    routine has the referenced identifier (a null reference is always admitted);
  \<^item> reading integers: the client hands an integer column back as a JavaScript number and
    fails when a returned row holds an integer outside the safe range; the step table has
    two such columns, \<open>orderIndex\<close> and \<open>minutesBeforeBed\<close>, and writing such an integer
    succeeds;
  \<^item> an offset of \<open>2^63\<close> or more is not a 64-bit integer and is rejected.

  The foreign key of \<open>SleepRoutineSteps.routineId\<close> to the same column has no check of its
  own here: the handlers insert steps only for the routine they have inserted or selected
  just before (lemmas \<open>createRoutine_steps_reference\<close>, \<open>updateRoutine_steps_reference\<close>).
  The quality score of a log is validated to \<open>1..10\<close> on every write, so log rows are always
  readable. Primary keys are not checked: identifiers come from \<open>crypto.randomUUID()\<close>, and
  a theorem that needs one fresh says so.

  Date columns are stored as ISO-8601 text and \<open>orderBy\<close> compares that text. For the years
  0000 to 9999 the text is \<open>YYYY-MM-DD...\<close> and orders as the instants do. The columns
  \<open>createdAt\<close> and \<open>updatedAt\<close> are only ever written from the server clock and are ordered
  by instant; \<open>sleepDate\<close> comes from the caller, and its ordering follows the text
  (\<open>iso_text_key\<close> below).
\<close>

datatype tbl = Routines | Steps | Logs

datatype stmt = SELECT tbl | INSERT tbl | UPDATE tbl | DELETE tbl

record db =
  SleepRoutines :: "routine_row list"
  SleepRoutineSteps :: "step_row list"
  SleepLogs :: "log_row list"
  trace :: "stmt list"

definition select_routines :: "(routine_row \<Rightarrow> bool) \<Rightarrow> db \<Rightarrow> routine_row list \<times> db" where
  "select_routines cond d =
     (filter cond (SleepRoutines d), d\<lparr>trace := trace d @ [SELECT Routines]\<rparr>)"

definition step_readable :: "step_row \<Rightarrow> bool" where
  "step_readable s =
     (safe_integer (s_orderIndex s)
      \<and> (case s_minutesBeforeBed s of None \<Rightarrow> True | Some m \<Rightarrow> safe_integer m))"

definition select_steps :: "(step_row \<Rightarrow> bool) \<Rightarrow> db \<Rightarrow> (error + step_row list) \<times> db" where
  "select_steps cond d =
     (let rows = filter cond (SleepRoutineSteps d);
          d1 = d\<lparr>trace := trace d @ [SELECT Steps]\<rparr>
      in if list_all step_readable rows then (Inr rows, d1)
         else (Inl INTERNAL_SERVER_ERROR, d1))"

definition select_logs :: "(log_row \<Rightarrow> bool) \<Rightarrow> db \<Rightarrow> log_row list \<times> db" where
  "select_logs cond d =
     (filter cond (SleepLogs d), d\<lparr>trace := trace d @ [SELECT Logs]\<rparr>)"

definition insert_routines :: "routine_row list \<Rightarrow> db \<Rightarrow> db" where
  "insert_routines rows d =
     d\<lparr>SleepRoutines := SleepRoutines d @ rows, trace := trace d @ [INSERT Routines]\<rparr>"

definition insert_steps :: "step_row list \<Rightarrow> db \<Rightarrow> db" where
  "insert_steps rows d =
     d\<lparr>SleepRoutineSteps := SleepRoutineSteps d @ rows, trace := trace d @ [INSERT Steps]\<rparr>"

text \<open>The foreign key: a reference is admitted when it is null or the identifier of a routine.\<close>

definition references_routine :: "db \<Rightarrow> string option \<Rightarrow> bool" where
  "references_routine d routineId =
     (case routineId of None \<Rightarrow> True | Some rid \<Rightarrow> rid \<in> set (map r_id (SleepRoutines d)))"

definition insert_logs :: "log_row list \<Rightarrow> db \<Rightarrow> (error + unit) \<times> db" where
  "insert_logs rows d =
     (let d1 = d\<lparr>trace := trace d @ [INSERT Logs]\<rparr>
      in if list_all (\<lambda>l. references_routine d (l_routineId l)) rows
         then (Inr (), d1\<lparr>SleepLogs := SleepLogs d @ rows\<rparr>)
         else (Inl INTERNAL_SERVER_ERROR, d1))"

definition update_routines ::
  "(routine_row \<Rightarrow> routine_row) \<Rightarrow> (routine_row \<Rightarrow> bool) \<Rightarrow> db \<Rightarrow> nat \<times> db" where
  "update_routines set_to cond d =
     (length (filter cond (SleepRoutines d)),
      d\<lparr>SleepRoutines := map (\<lambda>r. if cond r then set_to r else r) (SleepRoutines d),
        trace := trace d @ [UPDATE Routines]\<rparr>)"

definition delete_steps :: "(step_row \<Rightarrow> bool) \<Rightarrow> db \<Rightarrow> db" where
  "delete_steps cond d =
     d\<lparr>SleepRoutineSteps := filter (\<lambda>s. \<not> cond s) (SleepRoutineSteps d),
       trace := trace d @ [DELETE Steps]\<rparr>"

definition limit_rows :: "int \<Rightarrow> 'a list \<Rightarrow> 'a list" where
  "limit_rows n rows = (if n < 0 then rows else take (nat n) rows)"

definition offset_rows :: "int \<Rightarrow> 'a list \<Rightarrow> error + 'a list" where
  "offset_rows n rows =
     (if 9223372036854775808 \<le> n then Inl INTERNAL_SERVER_ERROR else Inr (drop (nat n) rows))"

text \<open>
  The order of the ISO-8601 text of a date (\<open>Date.prototype.toISOString\<close>), compared byte by
  byte. The text starts with the year: four digits for the years 0000 to 9999, otherwise a
  sign and six digits; month, day and time follow in fields of fixed width. A \<open>+\<close> sorts
  before a \<open>-\<close>, and both before a digit. So the dates after the year 9999 come first, in the
  order of their instants; then the dates before the year 0000, the year of larger magnitude
  (the earlier one) later, and within one year in the order of their instants; then the dates
  of the years 0000 to 9999 in the order of their instants. \<open>iso_text_key\<close> is a key with that
  order. Years are those of the proleptic Gregorian calendar, the year 0000 included.
\<close>

definition year_start_day :: "int \<Rightarrow> int" where
  \<comment> \<open>the days from 1970-01-01 to the first of January of the year\<close>
  "year_start_day y = 365 * y + (y - 1) div 4 - (y - 1) div 100 + (y - 1) div 400 - 719527"

definition year_of_day :: "int \<Rightarrow> int" where
  "year_of_day n =
     (let e = ((n + 719528) * 400) div 146097
      in if n < year_start_day e then e - 1
         else if year_start_day (e + 1) \<le> n then e + 1
         else e)"


definition iso_text_key :: "date \<Rightarrow> int \<times> int \<times> int" where
  "iso_text_key t =
     (if 253402300799999 < t then (0, t, 0)
      else if t < - 62167219200000
           then (let y = year_of_day (t div 86400000)
                 in (1, - y, t - year_start_day y * 86400000))
           else (2, t, 0))"

text \<open>\<open>desc\<close> on such a key.\<close>

definition desc_key :: "int \<times> int \<times> int \<Rightarrow> int \<times> int \<times> int" where
  "desc_key k = (case k of (a, b, c) \<Rightarrow> (- a, - b, - c))"

subsection \<open>The request context and \<open>requireUser\<close>\<close>

record app_user =
  uid :: string

record app_locals =
  loc_user :: "app_user option"

record action_context =
  ctx_locals :: "app_locals option"

text \<open>\<open>context.locals?.user\<close>: \<open>undefined\<close> when there are no locals or no user in them.\<close>

definition ctx_user :: "action_context \<Rightarrow> app_user option" where
  "ctx_user ctx = (case ctx_locals ctx of None \<Rightarrow> None | Some locals \<Rightarrow> loc_user locals)"

definition requireUser :: "action_context \<Rightarrow> error + app_user" where
  "requireUser ctx =
     (let user = ctx_user ctx
      in case user of None \<Rightarrow> Inl UNAUTHORIZED | Some u \<Rightarrow> Inr u)"

subsection \<open>Inputs, as the schemas of the actions admit them\<close>

record step_input =
  si_title :: string
  si_description :: "string opt"
  si_minutesBeforeBed :: "int opt"
  si_orderIndex :: "int opt"

record createRoutine_input =
  cr_steps :: "step_input list opt"
  cr_name :: string
  cr_goalDescription :: "string opt"
  cr_targetBedTimeLocal :: "string opt"
  cr_targetWakeTimeLocal :: "string opt"
  cr_timeZone :: "string opt"
  cr_notes :: "string opt"

record updateRoutine_input =
  ur_id :: string
  ur_steps :: "step_input list opt"
  ur_name :: "string opt"
  ur_goalDescription :: "string opt"
  ur_targetBedTimeLocal :: "string opt"
  ur_targetWakeTimeLocal :: "string opt"
  ur_timeZone :: "string opt"
  ur_notes :: "string opt"

record createSleepLog_input =
  cl_routineId :: "string opt"
  cl_sleepDate :: "date opt"
  cl_bedTime :: "date opt"
  cl_wakeTime :: "date opt"
  cl_sleepQualityScore :: "int opt"
  cl_notes :: "string opt"

record updateSleepLog_input =
  ul_id :: string
  ul_routineId :: "string opt"
  ul_sleepDate :: "date opt"
  ul_bedTime :: "date opt"
  ul_wakeTime :: "date opt"
  ul_sleepQualityScore :: "int opt"
  ul_notes :: "string opt"

record listSleepLogs_input =
  ls_page :: int
  ls_pageSize :: int
  ls_routineId :: "string opt"

subsection \<open>Routines\<close>

text \<open>
  The rows built from a step list, \<open>input.steps.map((step, index) => ...)\<close>, written
  twice in the source (in \<open>createRoutine\<close> and in \<open>updateRoutine\<close>) with the same body.
  \<open>step_uuid index\<close> is the identifier drawn for the step at \<open>index\<close>.
\<close>

definition stepValues :: "string \<Rightarrow> date \<Rightarrow> (nat \<Rightarrow> string) \<Rightarrow> step_input list \<Rightarrow> step_row list" where
  "stepValues routineId now step_uuid steps =
     map (\<lambda>(index, step).
            \<lparr>s_id = step_uuid index,
             s_routineId = routineId,
             s_orderIndex = nullish (read_key (si_orderIndex step)) (int index + 1),
             s_title = si_title step,
             s_description = read_key (si_description step),
             s_minutesBeforeBed = read_key (si_minutesBeforeBed step),
             s_createdAt = now\<rparr>)
         (enumerate 0 steps)"

definition createRoutine ::
  "date \<Rightarrow> (nat \<Rightarrow> string) \<Rightarrow> createRoutine_input \<Rightarrow> action_context \<Rightarrow> db \<Rightarrow> (error + string) \<times> db" where
  "createRoutine now uuid input ctx d =
     (case requireUser ctx of
        Inl e \<Rightarrow> (Inl e, d)
      | Inr user \<Rightarrow>
          let routineId = uuid 0;
              d1 = insert_routines
                     [\<lparr>r_id = routineId,
                       r_userId = uid user,
                       r_name = cr_name input,
                       r_goalDescription = read_key (cr_goalDescription input),
                       r_targetBedTimeLocal = read_key (cr_targetBedTimeLocal input),
                       r_targetWakeTimeLocal = read_key (cr_targetWakeTimeLocal input),
                       r_timeZone = read_key (cr_timeZone input),
                       r_notes = read_key (cr_notes input),
                       r_isActive = True,
                       r_createdAt = now,
                       r_updatedAt = now\<rparr>] d;
              d2 = (case read_key (cr_steps input) of
                      None \<Rightarrow> d1
                    | Some steps \<Rightarrow>
                        if length steps \<noteq> 0
                        then insert_steps
                               (stepValues routineId now (\<lambda>index. uuid (Suc index)) steps) d1
                        else d1)
          in (Inr routineId, d2))"

text \<open>
  \<open>updateData\<close>, a partial row: a column is \<open>Some v\<close> when the object has the key with
  value \<open>v\<close>, and \<open>None\<close> when it has not.
\<close>

record routine_patch =
  p_updatedAt :: "date option"
  p_name :: "string option"
  p_goalDescription :: "string option"
  p_targetBedTimeLocal :: "string option"
  p_targetWakeTimeLocal :: "string option"
  p_timeZone :: "string option"
  p_notes :: "string option"

text \<open>The body of the \<open>forEach\<close>: \<open>if (key in input && input[key] !== undefined)\<close>.\<close>

definition copy_key :: "'a opt \<Rightarrow> 'a option" where
  "copy_key field = (if has_key field \<and> read_key field \<noteq> None then read_key field else None)"

fun key_count :: "'a option \<Rightarrow> nat" where
  "key_count None = 0"
| "key_count (Some v) = 1"

definition routine_patch_keys :: "routine_patch \<Rightarrow> nat" where
  "routine_patch_keys p =
     key_count (p_updatedAt p) + key_count (p_name p) + key_count (p_goalDescription p)
     + key_count (p_targetBedTimeLocal p) + key_count (p_targetWakeTimeLocal p)
     + key_count (p_timeZone p) + key_count (p_notes p)"

text \<open>\<open>.set(updateData)\<close> on one row: a column whose key is missing keeps its value.\<close>

definition set_routine :: "routine_patch \<Rightarrow> routine_row \<Rightarrow> routine_row" where
  "set_routine p r =
     r\<lparr>r_updatedAt := nullish (p_updatedAt p) (r_updatedAt r),
       r_name := nullish (p_name p) (r_name r),
       r_goalDescription :=
         (case p_goalDescription p of None \<Rightarrow> r_goalDescription r | Some v \<Rightarrow> Some v),
       r_targetBedTimeLocal :=
         (case p_targetBedTimeLocal p of None \<Rightarrow> r_targetBedTimeLocal r | Some v \<Rightarrow> Some v),
       r_targetWakeTimeLocal :=
         (case p_targetWakeTimeLocal p of None \<Rightarrow> r_targetWakeTimeLocal r | Some v \<Rightarrow> Some v),
       r_timeZone := (case p_timeZone p of None \<Rightarrow> r_timeZone r | Some v \<Rightarrow> Some v),
       r_notes := (case p_notes p of None \<Rightarrow> r_notes r | Some v \<Rightarrow> Some v)\<rparr>"

text \<open>
  \<open>updateData\<close> as \<open>updateRoutine\<close> builds it: \<open>updatedAt\<close> first, then the \<open>forEach\<close> over
  the keys of \<open>routineBaseFields\<close>.
\<close>

definition routine_updateData :: "date \<Rightarrow> updateRoutine_input \<Rightarrow> routine_patch" where
  "routine_updateData now input =
     \<lparr>p_updatedAt = Some now,
      p_name = copy_key (ur_name input),
      p_goalDescription = copy_key (ur_goalDescription input),
      p_targetBedTimeLocal = copy_key (ur_targetBedTimeLocal input),
      p_targetWakeTimeLocal = copy_key (ur_targetWakeTimeLocal input),
      p_timeZone = copy_key (ur_timeZone input),
      p_notes = copy_key (ur_notes input)\<rparr>"

definition updateRoutine ::
  "date \<Rightarrow> (nat \<Rightarrow> string) \<Rightarrow> updateRoutine_input \<Rightarrow> action_context \<Rightarrow> db \<Rightarrow> (error + unit) \<times> db" where
  "updateRoutine now uuid input ctx d =
     (case requireUser ctx of
        Inl e \<Rightarrow> (Inl e, d)
      | Inr user \<Rightarrow>
          let (existing, d1) =
                select_routines (\<lambda>r. r_id r = ur_id input \<and> r_userId r = uid user) d
          in case existing of
               [] \<Rightarrow> (Inl NOT_FOUND, d1)
             | routine # _ \<Rightarrow>
                 let updateData = routine_updateData now input;
                     d2 = (if routine_patch_keys updateData > 0
                           then snd (update_routines (set_routine updateData)
                                       (\<lambda>r. r_id r = ur_id input \<and> r_userId r = uid user) d1)
                           else d1);
                     d3 = (case read_key (ur_steps input) of
                             None \<Rightarrow> d2
                           | Some steps \<Rightarrow>
                               let d2' = delete_steps (\<lambda>s. s_routineId s = ur_id input) d2
                               in if length steps \<noteq> 0
                                  then insert_steps (stepValues (ur_id input) now uuid steps) d2'
                                  else d2')
                 in (Inr (), d3))"

definition archiveRoutine ::
  "date \<Rightarrow> string \<Rightarrow> action_context \<Rightarrow> db \<Rightarrow> (error + unit) \<times> db" where
  "archiveRoutine now input_id ctx d =
     (case requireUser ctx of
        Inl e \<Rightarrow> (Inl e, d)
      | Inr user \<Rightarrow>
          let (rowsAffected, d1) =
                update_routines (\<lambda>r. r\<lparr>r_isActive := False, r_updatedAt := now\<rparr>)
                  (\<lambda>r. r_id r = input_id \<and> r_userId r = uid user) d
          in if rowsAffected = 0 then (Inl NOT_FOUND, d1) else (Inr (), d1))"

definition getRoutineWithSteps ::
  "string \<Rightarrow> action_context \<Rightarrow> db \<Rightarrow> (error + routine_row \<times> step_row list) \<times> db" where
  "getRoutineWithSteps input_id ctx d =
     (case requireUser ctx of
        Inl e \<Rightarrow> (Inl e, d)
      | Inr user \<Rightarrow>
          let (routines, d1) =
                select_routines (\<lambda>r. r_id r = input_id \<and> r_userId r = uid user) d
          in case routines of
               [] \<Rightarrow> (Inl NOT_FOUND, d1)
             | routine # _ \<Rightarrow>
                 (case select_steps (\<lambda>s. s_routineId s = input_id) d1 of
                    (Inl e, d2) \<Rightarrow> (Inl e, d2)
                  | (Inr rows, d2) \<Rightarrow>
                      let steps = sort_key s_orderIndex rows
                      in (Inr (routine, steps), d2)))"

record routines_listing =
  rl_items :: "routine_row list"
  rl_total :: nat

definition listMyRoutines ::
  "bool \<Rightarrow> action_context \<Rightarrow> db \<Rightarrow> (error + routines_listing) \<times> db" where
  "listMyRoutines includeInactive ctx d =
     (case requireUser ctx of
        Inl e \<Rightarrow> (Inl e, d)
      | Inr user \<Rightarrow>
          let filters = [\<lambda>r. r_userId r = uid user]
                        @ (if \<not> includeInactive then [\<lambda>r. r_isActive r = True] else []);
              (rows, d1) = select_routines (\<lambda>r. list_all (\<lambda>f. f r) filters) d;
              routines = sort_key (\<lambda>r. - r_updatedAt r) rows
          in (Inr \<lparr>rl_items = routines, rl_total = length routines\<rparr>, d1))"

subsection \<open>Sleep logs\<close>

text \<open>
  The block \<open>if (input.routineId) { ... throw FORBIDDEN ... }\<close>, the same in
  \<open>createSleepLog\<close> and \<open>updateSleepLog\<close>. The guard is the truthiness of the string.
\<close>

definition check_routine :: "string option \<Rightarrow> app_user \<Rightarrow> db \<Rightarrow> (error + unit) \<times> db" where
  "check_routine routineId user d =
     (if truthy_string routineId
      then let (routine, d1) =
                 select_routines (\<lambda>r. Some (r_id r) = routineId \<and> r_userId r = uid user) d
           in (case routine of [] \<Rightarrow> (Inl FORBIDDEN, d1) | _ # _ \<Rightarrow> (Inr (), d1))
      else (Inr (), d))"

definition createSleepLog ::
  "date \<Rightarrow> (nat \<Rightarrow> string) \<Rightarrow> createSleepLog_input \<Rightarrow> action_context \<Rightarrow> db \<Rightarrow> (error + string) \<times> db" where
  "createSleepLog now uuid input ctx d =
     (case requireUser ctx of
        Inl e \<Rightarrow> (Inl e, d)
      | Inr user \<Rightarrow>
          (case check_routine (read_key (cl_routineId input)) user d of
             (Inl e, d1) \<Rightarrow> (Inl e, d1)
           | (Inr _, d1) \<Rightarrow>
               let logId = uuid 0
               in (case insert_logs
                          [\<lparr>l_id = logId,
                            l_userId = uid user,
                            l_routineId = read_key (cl_routineId input),
                            l_sleepDate = nullish (read_key (cl_sleepDate input)) now,
                            l_bedTime = read_key (cl_bedTime input),
                            l_wakeTime = read_key (cl_wakeTime input),
                            l_sleepQualityScore = read_key (cl_sleepQualityScore input),
                            l_notes = read_key (cl_notes input),
                            l_createdAt = now\<rparr>] d1 of
                     (Inl e, d2) \<Rightarrow> (Inl e, d2)
                   | (Inr _, d2) \<Rightarrow> (Inr logId, d2))))"

record log_patch =
  q_routineId :: "string option"
  q_sleepDate :: "date option"
  q_bedTime :: "date option"
  q_wakeTime :: "date option"
  q_sleepQualityScore :: "int option"
  q_notes :: "string option"

definition log_patch_keys :: "log_patch \<Rightarrow> nat" where
  "log_patch_keys p =
     key_count (q_routineId p) + key_count (q_sleepDate p) + key_count (q_bedTime p)
     + key_count (q_wakeTime p) + key_count (q_sleepQualityScore p) + key_count (q_notes p)"

definition set_log :: "log_patch \<Rightarrow> log_row \<Rightarrow> log_row" where
  "set_log p r =
     r\<lparr>l_routineId := (case q_routineId p of None \<Rightarrow> l_routineId r | Some v \<Rightarrow> Some v),
       l_sleepDate := nullish (q_sleepDate p) (l_sleepDate r),
       l_bedTime := (case q_bedTime p of None \<Rightarrow> l_bedTime r | Some v \<Rightarrow> Some v),
       l_wakeTime := (case q_wakeTime p of None \<Rightarrow> l_wakeTime r | Some v \<Rightarrow> Some v),
       l_sleepQualityScore :=
         (case q_sleepQualityScore p of None \<Rightarrow> l_sleepQualityScore r | Some v \<Rightarrow> Some v),
       l_notes := (case q_notes p of None \<Rightarrow> l_notes r | Some v \<Rightarrow> Some v)\<rparr>"

text \<open>
  \<open>db.update(SleepLogs).set(updateData).where(...)\<close>. The foreign key is checked when the
  \<open>set\<close> holds \<open>routineId\<close> and a row matches.
\<close>

definition update_logs ::
  "log_patch \<Rightarrow> (log_row \<Rightarrow> bool) \<Rightarrow> db \<Rightarrow> (error + nat) \<times> db" where
  "update_logs updateData cond d =
     (let rowsAffected = length (filter cond (SleepLogs d));
          d1 = d\<lparr>trace := trace d @ [UPDATE Logs]\<rparr>
      in if rowsAffected > 0 \<and> \<not> references_routine d (q_routineId updateData)
         then (Inl INTERNAL_SERVER_ERROR, d1)
         else (Inr rowsAffected,
               d1\<lparr>SleepLogs := map (\<lambda>r. if cond r then set_log updateData r else r)
                                    (SleepLogs d)\<rparr>))"

text \<open>
  \<open>updateData\<close> as \<open>updateSleepLog\<close> builds it: empty, then the \<open>forEach\<close> over the keys
  of \<open>sleepLogFields\<close>.
\<close>

definition log_updateData :: "updateSleepLog_input \<Rightarrow> log_patch" where
  "log_updateData input =
     \<lparr>q_routineId = copy_key (ul_routineId input),
      q_sleepDate = copy_key (ul_sleepDate input),
      q_bedTime = copy_key (ul_bedTime input),
      q_wakeTime = copy_key (ul_wakeTime input),
      q_sleepQualityScore = copy_key (ul_sleepQualityScore input),
      q_notes = copy_key (ul_notes input)\<rparr>"

definition updateSleepLog ::
  "updateSleepLog_input \<Rightarrow> action_context \<Rightarrow> db \<Rightarrow> (error + unit) \<times> db" where
  "updateSleepLog input ctx d =
     (case requireUser ctx of
        Inl e \<Rightarrow> (Inl e, d)
      | Inr user \<Rightarrow>
          let (logs, d1) = select_logs (\<lambda>l. l_id l = ul_id input \<and> l_userId l = uid user) d
          in case logs of
               [] \<Rightarrow> (Inl NOT_FOUND, d1)
             | log # _ \<Rightarrow>
                 (case check_routine (read_key (ul_routineId input)) user d1 of
                    (Inl e, d2) \<Rightarrow> (Inl e, d2)
                  | (Inr _, d2) \<Rightarrow>
                      let updateData = log_updateData input
                      in if log_patch_keys updateData > 0
                         then (case update_logs updateData
                                      (\<lambda>l. l_id l = ul_id input \<and> l_userId l = uid user) d2 of
                                 (Inl e, d3) \<Rightarrow> (Inl e, d3)
                               | (Inr _, d3) \<Rightarrow> (Inr (), d3))
                         else (Inr (), d2)))"

record logs_listing =
  ll_items :: "log_row list"
  ll_page :: int
  ll_pageSize :: int
  ll_total :: nat

definition listSleepLogs ::
  "listSleepLogs_input \<Rightarrow> action_context \<Rightarrow> db \<Rightarrow> (error + logs_listing) \<times> db" where
  "listSleepLogs input ctx d =
     (case requireUser ctx of
        Inl e \<Rightarrow> (Inl e, d)
      | Inr user \<Rightarrow>
          let filters = [\<lambda>l. l_userId l = uid user]
                        @ (if truthy_string (read_key (ls_routineId input))
                           then [\<lambda>l. l_routineId l = read_key (ls_routineId input)] else []);
              offset = (ls_page input - 1) * ls_pageSize input;
              (rows, d1) = select_logs (\<lambda>l. list_all (\<lambda>f. f l) filters) d
          in case offset_rows offset
                    (sort_key (\<lambda>l. (desc_key (iso_text_key (l_sleepDate l)), - l_createdAt l))
                       rows) of
               Inl e \<Rightarrow> (Inl e, d1)
             | Inr rest \<Rightarrow>
                 let logs = limit_rows (ls_pageSize input) rest
                 in (Inr \<lparr>ll_items = logs, ll_page = ls_page input,
                          ll_pageSize = ls_pageSize input, ll_total = length logs\<rparr>, d1))"

subsection \<open>Auxiliary definitions for the statements below\<close>

text \<open>The rows that \<open>createRoutine\<close> hands to the insert into \<open>SleepRoutineSteps\<close>.\<close>

definition created_steps :: "date \<Rightarrow> (nat \<Rightarrow> string) \<Rightarrow> createRoutine_input \<Rightarrow> step_row list" where
  "created_steps now uuid input =
     (case read_key (cr_steps input) of None \<Rightarrow> []
      | Some steps \<Rightarrow> stepValues (uuid 0) now (\<lambda>index. uuid (Suc index)) steps)"


text \<open>Whether the caller owns a routine with the referenced identifier.\<close>

definition owns_routine :: "app_user \<Rightarrow> string option \<Rightarrow> db \<Rightarrow> bool" where
  "owns_routine u routineId d =
     (\<exists>r \<in> set (SleepRoutines d). Some (r_id r) = routineId \<and> r_userId r = uid u)"

text \<open>Every integer that a step definition supplies is a safe integer.\<close>

definition step_input_safe :: "step_input \<Rightarrow> bool" where
  "step_input_safe step =
     ((case read_key (si_orderIndex step) of None \<Rightarrow> True | Some v \<Rightarrow> safe_integer v)
      \<and> (case read_key (si_minutesBeforeBed step) of None \<Rightarrow> True | Some v \<Rightarrow> safe_integer v))"

text \<open>The row \<open>createSleepLog\<close> hands to the insert.\<close>

definition created_log :: "date \<Rightarrow> (nat \<Rightarrow> string) \<Rightarrow> createSleepLog_input \<Rightarrow> app_user \<Rightarrow> log_row" where
  "created_log now uuid input u =
     \<lparr>l_id = uuid 0, l_userId = uid u, l_routineId = read_key (cl_routineId input),
      l_sleepDate = nullish (read_key (cl_sleepDate input)) now,
      l_bedTime = read_key (cl_bedTime input), l_wakeTime = read_key (cl_wakeTime input),
      l_sleepQualityScore = read_key (cl_sleepQualityScore input),
      l_notes = read_key (cl_notes input), l_createdAt = now\<rparr>"

text \<open>Concrete data for the examples: stores, request contexts, an identifier source, inputs.\<close>

definition empty_db :: db where
  "empty_db = \<lparr>SleepRoutines = [], SleepRoutineSteps = [], SleepLogs = [], trace = []\<rparr>"

definition signed_in :: "string \<Rightarrow> action_context" where
  "signed_in name = \<lparr>ctx_locals = Some \<lparr>loc_user = Some \<lparr>uid = name\<rparr>\<rparr>\<rparr>"

definition anonymous :: action_context where
  "anonymous = \<lparr>ctx_locals = Some \<lparr>loc_user = None\<rparr>\<rparr>"

definition ex_uuid :: "nat \<Rightarrow> string" where
  "ex_uuid n = ''uuid-'' @ replicate n (CHR ''i'')"

definition ex_step :: "string \<Rightarrow> int opt \<Rightarrow> step_input" where
  "ex_step t oi = \<lparr>si_title = t, si_description = Absent, si_minutesBeforeBed = Absent, si_orderIndex = oi\<rparr>"

definition ex_weekday :: createRoutine_input where
  "ex_weekday =
     \<lparr>cr_steps = Present [ex_step ''Dim lights'' Absent, ex_step ''Read'' Absent],
      cr_name = ''Weekday'', cr_goalDescription = Absent, cr_targetBedTimeLocal = Absent,
      cr_targetWakeTimeLocal = Absent, cr_timeZone = Absent, cr_notes = Absent\<rparr>"

definition ex_evening :: createRoutine_input where
  "ex_evening =
     \<lparr>cr_steps = Present [ex_step ''Dim lights'' Absent, ex_step ''Read'' (Present 5),
                          ex_step ''Stretch'' Undefined],
      cr_name = ''Evening'', cr_goalDescription = Present ''Sleep by 11 PM'',
      cr_targetBedTimeLocal = Present ''23:00'', cr_targetWakeTimeLocal = Absent,
      cr_timeZone = Absent, cr_notes = Absent\<rparr>"

definition ex_routine :: "string \<Rightarrow> string \<Rightarrow> routine_row" where
  "ex_routine rid owner =
     \<lparr>r_id = rid, r_userId = owner, r_name = ''Weekday'', r_goalDescription = None,
      r_targetBedTimeLocal = Some ''23:00'', r_targetWakeTimeLocal = None, r_timeZone = None,
      r_notes = None, r_isActive = True, r_createdAt = 10, r_updatedAt = 10\<rparr>"

definition ex_stored_step :: "string \<Rightarrow> string \<Rightarrow> int \<Rightarrow> step_row" where
  "ex_stored_step sid rid k =
     \<lparr>s_id = sid, s_routineId = rid, s_orderIndex = k, s_title = ''Read'',
      s_description = None, s_minutesBeforeBed = None, s_createdAt = 10\<rparr>"

definition ex_db :: db where
  "ex_db = \<lparr>SleepRoutines = [ex_routine ''r1'' ''ann'', ex_routine ''r2'' ''bob''],
            SleepRoutineSteps = [ex_stored_step ''s1'' ''r1'' 1, ex_stored_step ''s2'' ''r2'' 1],
            SleepLogs = [], trace = []\<rparr>"

definition ex_notes_only :: updateRoutine_input where
  "ex_notes_only =
     \<lparr>ur_id = ''r1'', ur_steps = Absent, ur_name = Absent, ur_goalDescription = Undefined,
      ur_targetBedTimeLocal = Absent, ur_targetWakeTimeLocal = Absent, ur_timeZone = Absent,
      ur_notes = Present ''no coffee''\<rparr>"

definition ex_list_db :: db where
  "ex_list_db =
     \<lparr>SleepRoutines =
        [ex_routine ''r1'' ''ann'',
         (ex_routine ''r2'' ''ann'')\<lparr>r_isActive := False, r_updatedAt := 30\<rparr>,
         (ex_routine ''r3'' ''ann'')\<lparr>r_updatedAt := 20\<rparr>,
         (ex_routine ''r4'' ''bob'')\<lparr>r_updatedAt := 40\<rparr>],
      SleepRoutineSteps = [], SleepLogs = [], trace = []\<rparr>"

definition ex_log :: "string \<Rightarrow> string \<Rightarrow> string option \<Rightarrow> date \<Rightarrow> date \<Rightarrow> log_row" where
  "ex_log lid owner rid sleepDate createdAt =
     \<lparr>l_id = lid, l_userId = owner, l_routineId = rid, l_sleepDate = sleepDate,
      l_bedTime = None, l_wakeTime = None, l_sleepQualityScore = None, l_notes = None,
      l_createdAt = createdAt\<rparr>"

definition ex_log_db :: db where
  "ex_log_db =
     \<lparr>SleepRoutines = [ex_routine ''r1'' ''ann'', ex_routine ''r2'' ''bob''],
      SleepRoutineSteps = [],
      SleepLogs = [ex_log ''l1'' ''ann'' (Some ''r1'') 100 5,
                   ex_log ''l2'' ''ann'' None 200 6,
                   ex_log ''l3'' ''ann'' (Some ''r1'') 100 9,
                   ex_log ''l4'' ''bob'' (Some ''r2'') 300 7],
      trace = []\<rparr>"

definition ex_second_page :: listSleepLogs_input where
  "ex_second_page = \<lparr>ls_page = 2, ls_pageSize = 1, ls_routineId = Present ''r1''\<rparr>"


definition ex_create_blank :: createSleepLog_input where
  "ex_create_blank =
     \<lparr>cl_routineId = Present '''', cl_sleepDate = Absent, cl_bedTime = Absent,
      cl_wakeTime = Absent, cl_sleepQualityScore = Present 7, cl_notes = Absent\<rparr>"

definition ex_update_blank :: updateSleepLog_input where
  "ex_update_blank =
     \<lparr>ul_id = ''l1'', ul_routineId = Present '''', ul_sleepDate = Absent, ul_bedTime = Absent,
      ul_wakeTime = Absent, ul_sleepQualityScore = Absent, ul_notes = Absent\<rparr>"

definition ex_far_index :: createRoutine_input where
  "ex_far_index =
     \<lparr>cr_steps = Present [ex_step ''Read'' (Present 1152921504606846976)],
      cr_name = ''Evening'', cr_goalDescription = Absent, cr_targetBedTimeLocal = Absent,
      cr_targetWakeTimeLocal = Absent, cr_timeZone = Absent, cr_notes = Absent\<rparr>"

definition ex_create_log :: "string opt \<Rightarrow> createSleepLog_input" where
  "ex_create_log rid =
     \<lparr>cl_routineId = rid, cl_sleepDate = Absent, cl_bedTime = Absent,
      cl_wakeTime = Absent, cl_sleepQualityScore = Present 7, cl_notes = Absent\<rparr>"




section \<open>Basic facts about the handlers\<close>

lemma requireUser_None: "ctx_user ctx = None \<Longrightarrow> requireUser ctx = Inl UNAUTHORIZED"
  by (simp add: requireUser_def)

lemma requireUser_Some: "ctx_user ctx = Some u \<Longrightarrow> requireUser ctx = Inr u"
  by (simp add: requireUser_def)

lemma length_stepValues: "length (stepValues rid now f steps) = length steps"
  by (simp add: stepValues_def)

lemma stepValues_Nil: "stepValues rid now f [] = []"
  by (simp add: stepValues_def)

lemma stepValues_routineId: "s \<in> set (stepValues rid now f steps) \<Longrightarrow> s_routineId s = rid"
  by (auto simp: stepValues_def)

lemma stepValues_createdAt: "s \<in> set (stepValues rid now f steps) \<Longrightarrow> s_createdAt s = now"
  by (auto simp: stepValues_def)

lemma stepValues_keys:
  "map (\<lambda>s. (s_title s, s_orderIndex s)) (stepValues rid now f steps)
   = map (\<lambda>(index, step). (si_title step, nullish (read_key (si_orderIndex step)) (int index + 1)))
       (enumerate 0 steps)"
  by (simp add: stepValues_def split_def)

lemma createRoutine_fst:
  "ctx_user ctx = Some u \<Longrightarrow> fst (createRoutine now uuid input ctx d) = Inr (uuid 0)"
  by (simp add: createRoutine_def requireUser_Some Let_def)

lemma createRoutine_routines:
  "ctx_user ctx = Some u \<Longrightarrow>
   SleepRoutines (snd (createRoutine now uuid input ctx d)) =
   SleepRoutines d @
     [\<lparr>r_id = uuid 0, r_userId = uid u, r_name = cr_name input,
       r_goalDescription = read_key (cr_goalDescription input),
       r_targetBedTimeLocal = read_key (cr_targetBedTimeLocal input),
       r_targetWakeTimeLocal = read_key (cr_targetWakeTimeLocal input),
       r_timeZone = read_key (cr_timeZone input),
       r_notes = read_key (cr_notes input),
       r_isActive = True, r_createdAt = now, r_updatedAt = now\<rparr>]"
  by (simp add: createRoutine_def requireUser_Some Let_def insert_routines_def insert_steps_def
      split: option.split)

lemma createRoutine_steps:
  "ctx_user ctx = Some u \<Longrightarrow>
   SleepRoutineSteps (snd (createRoutine now uuid input ctx d)) =
   SleepRoutineSteps d @ created_steps now uuid input"
  by (simp add: createRoutine_def requireUser_Some Let_def insert_routines_def insert_steps_def
      created_steps_def stepValues_Nil split: option.split)

lemma createRoutine_steps_reference:
  assumes "ctx_user ctx = Some u"
    and "s \<in> set (created_steps now uuid input)"
  shows "s_routineId s \<in> set (map r_id (SleepRoutines (snd (createRoutine now uuid input ctx d))))"
proof -
  have "s_routineId s = uuid 0"
    using assms(2) by (auto simp: created_steps_def stepValues_routineId split: option.splits)
  then show ?thesis
    unfolding createRoutine_routines [OF assms(1)] by simp
qed

lemma getRoutineWithSteps_found:
  assumes "ctx_user ctx = Some u"
    and "filter (\<lambda>r. r_id r = rid \<and> r_userId r = uid u) (SleepRoutines d) = routine # rest"
    and "list_all step_readable (filter (\<lambda>s. s_routineId s = rid) (SleepRoutineSteps d))"
  shows "fst (getRoutineWithSteps rid ctx d) =
         Inr (routine, sort_key s_orderIndex (filter (\<lambda>s. s_routineId s = rid) (SleepRoutineSteps d)))"
  using assms
  by (simp add: getRoutineWithSteps_def requireUser_Some select_routines_def select_steps_def Let_def)

lemma getRoutineWithSteps_unreadable:
  assumes "ctx_user ctx = Some u"
    and "filter (\<lambda>r. r_id r = rid \<and> r_userId r = uid u) (SleepRoutines d) = routine # rest"
    and "\<not> list_all step_readable (filter (\<lambda>s. s_routineId s = rid) (SleepRoutineSteps d))"
  shows "fst (getRoutineWithSteps rid ctx d) = Inl INTERNAL_SERVER_ERROR"
  using assms
  by (simp add: getRoutineWithSteps_def requireUser_Some select_routines_def select_steps_def Let_def)

lemma getRoutineWithSteps_missing:
  assumes "ctx_user ctx = Some u"
    and "filter (\<lambda>r. r_id r = rid \<and> r_userId r = uid u) (SleepRoutines d) = []"
  shows "fst (getRoutineWithSteps rid ctx d) = Inl NOT_FOUND"
  using assms
  by (simp add: getRoutineWithSteps_def requireUser_Some select_routines_def select_steps_def Let_def)

lemma ctx_user_signed_in: "ctx_user (signed_in name) = Some \<lparr>uid = name\<rparr>"
  by (simp add: ctx_user_def signed_in_def)

lemma copy_key_read: "copy_key field = read_key field"
  by (cases field) (simp_all add: copy_key_def)

lemma routine_patch_keys_pos: "routine_patch_keys (routine_updateData now input) > 0"
  by (simp add: routine_patch_keys_def routine_updateData_def)

lemma updateRoutine_missing:
  assumes "ctx_user ctx = Some u"
    and "filter (\<lambda>r. r_id r = ur_id input \<and> r_userId r = uid u) (SleepRoutines d) = []"
  shows "fst (updateRoutine now uuid input ctx d) = Inl NOT_FOUND"
  using assms by (simp add: updateRoutine_def requireUser_Some select_routines_def)

lemma updateRoutine_found:
  assumes "ctx_user ctx = Some u"
    and "filter (\<lambda>r. r_id r = ur_id input \<and> r_userId r = uid u) (SleepRoutines d) \<noteq> []"
  shows "fst (updateRoutine now uuid input ctx d) = Inr ()"
  using assms
  by (simp add: updateRoutine_def requireUser_Some select_routines_def Let_def split: list.split)

lemma updateRoutine_routines:
  assumes "ctx_user ctx = Some u"
    and "filter (\<lambda>r. r_id r = ur_id input \<and> r_userId r = uid u) (SleepRoutines d) \<noteq> []"
  shows "SleepRoutines (snd (updateRoutine now uuid input ctx d)) =
         map (\<lambda>r. if r_id r = ur_id input \<and> r_userId r = uid u
                   then set_routine (routine_updateData now input) r else r) (SleepRoutines d)"
  using assms
  by (simp add: updateRoutine_def requireUser_Some select_routines_def Let_def
      routine_patch_keys_pos update_routines_def delete_steps_def insert_steps_def
      split: list.split option.split)

lemma updateRoutine_steps:
  assumes "ctx_user ctx = Some u"
    and "filter (\<lambda>r. r_id r = ur_id input \<and> r_userId r = uid u) (SleepRoutines d) \<noteq> []"
  shows "SleepRoutineSteps (snd (updateRoutine now uuid input ctx d)) =
         (case read_key (ur_steps input) of
            None \<Rightarrow> SleepRoutineSteps d
          | Some steps \<Rightarrow> filter (\<lambda>s. s_routineId s \<noteq> ur_id input) (SleepRoutineSteps d)
                          @ stepValues (ur_id input) now uuid steps)"
  using assms
  by (simp add: updateRoutine_def requireUser_Some select_routines_def Let_def
      routine_patch_keys_pos update_routines_def delete_steps_def insert_steps_def stepValues_Nil
      split: list.split option.split)

lemma updateRoutine_success_found:
  assumes "ctx_user ctx = Some u" and "fst (updateRoutine now uuid input ctx d) = Inr ()"
  shows "filter (\<lambda>r. r_id r = ur_id input \<and> r_userId r = uid u) (SleepRoutines d) \<noteq> []"
  using assms updateRoutine_missing [of ctx u input d now uuid] by auto

lemma set_routine_keeps_owner:
  "r_id (set_routine p r) = r_id r \<and> r_userId (set_routine p r) = r_userId r"
  by (simp add: set_routine_def)

lemma owned_after_update:
  assumes "\<exists>r \<in> set rows. r_id r = rid \<and> r_userId r = usr"
    and "\<And>r. r_id (f r) = r_id r \<and> r_userId (f r) = r_userId r"
  shows "\<exists>r \<in> set (map (\<lambda>r. if r_id r = rid \<and> r_userId r = usr then f r else r) rows).
           r_id r = rid \<and> r_userId r = usr"
proof -
  from assms(1) obtain r where r: "r \<in> set rows" "r_id r = rid" "r_userId r = usr" by blast
  then have "f r \<in> set (map (\<lambda>r. if r_id r = rid \<and> r_userId r = usr then f r else r) rows)"
    by force
  moreover have "r_id (f r) = rid \<and> r_userId (f r) = usr"
    using assms(2) [of r] r(2,3) by simp
  ultimately show ?thesis by (rule bexI [rotated])
qed

lemma filter_owned_nonempty:
  "(filter cond rows \<noteq> []) = (\<exists>r \<in> set rows. cond r)"
  by (auto simp: filter_empty_conv)

lemma updateRoutine_steps_reference:
  assumes user: "ctx_user ctx = Some u"
    and found: "filter (\<lambda>r. r_id r = ur_id input \<and> r_userId r = uid u) (SleepRoutines d) \<noteq> []"
    and steps: "read_key (ur_steps input) = Some steps"
    and s: "s \<in> set (stepValues (ur_id input) now uuid steps)"
  shows "s_routineId s \<in> set (map r_id (SleepRoutines (snd (updateRoutine now uuid input ctx d))))"
proof -
  have "\<exists>r \<in> set (SleepRoutines d). r_id r = ur_id input \<and> r_userId r = uid u"
    using found by (simp add: filter_owned_nonempty)
  then have "\<exists>r \<in> set (SleepRoutines (snd (updateRoutine now uuid input ctx d))).
               r_id r = ur_id input \<and> r_userId r = uid u"
    unfolding updateRoutine_routines [OF user found]
    by (rule owned_after_update [OF _ set_routine_keeps_owner])
  then show ?thesis
    using stepValues_routineId [OF s] by force
qed

lemma archiveRoutine_missing:
  assumes "ctx_user ctx = Some u"
    and "\<not> (\<exists>r \<in> set (SleepRoutines d). r_id r = rid \<and> r_userId r = uid u)"
  shows "fst (archiveRoutine now rid ctx d) = Inl NOT_FOUND"
  using assms
  by (simp add: archiveRoutine_def requireUser_Some update_routines_def filter_empty_conv)

lemma archiveRoutine_found:
  assumes "ctx_user ctx = Some u"
    and "\<exists>r \<in> set (SleepRoutines d). r_id r = rid \<and> r_userId r = uid u"
  shows "fst (archiveRoutine now rid ctx d) = Inr ()"
  using assms
  by (auto simp: archiveRoutine_def requireUser_Some update_routines_def filter_empty_conv)

lemma archiveRoutine_routines:
  assumes "ctx_user ctx = Some u"
  shows "SleepRoutines (snd (archiveRoutine now rid ctx d)) =
         map (\<lambda>r. if r_id r = rid \<and> r_userId r = uid u
                   then r\<lparr>r_isActive := False, r_updatedAt := now\<rparr> else r) (SleepRoutines d)"
  using assms
  by (simp add: archiveRoutine_def requireUser_Some update_routines_def)

lemma archived_rows:
  assumes "r' \<in> set (map (\<lambda>r. if r_id r = rid \<and> r_userId r = usr
                               then r\<lparr>r_isActive := False, r_updatedAt := t\<rparr> else r) rows)"
    and "r_id r' = rid \<and> r_userId r' = usr"
  shows "\<not> r_isActive r' \<and> r_updatedAt r' = t"
proof -
  from assms(1) obtain r where r: "r \<in> set rows"
    "r' = (if r_id r = rid \<and> r_userId r = usr then r\<lparr>r_isActive := False, r_updatedAt := t\<rparr> else r)"
    by auto
  show ?thesis
  proof (cases "r_id r = rid \<and> r_userId r = usr")
    case True
    then show ?thesis using r(2) by simp
  next
    case False
    have "r' = r" unfolding r(2) by (rule if_not_P [OF False])
    then show ?thesis using False assms(2) by simp
  qed
qed

lemma archive_keeps_owner:
  "r_id (r\<lparr>r_isActive := False, r_updatedAt := t\<rparr>) = r_id r
   \<and> r_userId (r\<lparr>r_isActive := False, r_updatedAt := t\<rparr>) = r_userId r"
  by simp

lemma archive_again:
  "\<not> r_isActive r \<Longrightarrow> r\<lparr>r_isActive := False, r_updatedAt := t\<rparr> = r\<lparr>r_updatedAt := t\<rparr>"
  by simp

lemma listMyRoutines_result:
  assumes "ctx_user ctx = Some u"
  shows "fst (listMyRoutines includeInactive ctx d) =
         Inr \<lparr>rl_items = sort_key (\<lambda>r. - r_updatedAt r)
                            (filter (\<lambda>r. r_userId r = uid u \<and> (includeInactive \<or> r_isActive r))
                               (SleepRoutines d)),
              rl_total = length (filter (\<lambda>r. r_userId r = uid u \<and> (includeInactive \<or> r_isActive r))
                                   (SleepRoutines d))\<rparr>"
proof (cases includeInactive)
  case True
  then show ?thesis using assms
    by (simp add: listMyRoutines_def requireUser_Some select_routines_def Let_def)
next
  case False
  then show ?thesis using assms
    by (simp add: listMyRoutines_def requireUser_Some select_routines_def Let_def)
qed

lemma sorted_desc_sort_key:
  "sorted_wrt (\<lambda>a b. f b \<le> f a) (sort_key (\<lambda>r. - f r) (rows :: 'a list))"
  for f :: "'a \<Rightarrow> int"
proof -
  have "sorted (map (\<lambda>r. - f r) (sort_key (\<lambda>r. - f r) rows))"
    by (rule sorted_sort_key)
  then show ?thesis by (simp add: sorted_map)
qed

lemma stepValues_readable:
  assumes "length steps < 4294967296"
    and "\<forall>step \<in> set steps. step_input_safe step"
  shows "list_all step_readable (stepValues rid now f steps)"
proof -
  have "step_readable
          \<lparr>s_id = f index, s_routineId = rid,
           s_orderIndex = nullish (read_key (si_orderIndex step)) (int index + 1),
           s_title = si_title step, s_description = read_key (si_description step),
           s_minutesBeforeBed = read_key (si_minutesBeforeBed step), s_createdAt = now\<rparr>"
    if "(index, step) \<in> set (enumerate 0 steps)" for index step
  proof -
    have idx: "index < length steps" and mem: "step \<in> set steps"
      using that by (auto simp: in_set_enumerate_eq)
    have safe: "step_input_safe step" using assms(2) mem by blast
    have small: "safe_integer (int index + 1)"
      using idx assms(1) by (simp add: safe_integer_def)
    show ?thesis
      using safe small
      by (cases "read_key (si_orderIndex step)")
        (simp_all add: step_readable_def step_input_safe_def)
  qed
  then show ?thesis
    by (auto simp: stepValues_def list_all_iff)
qed

lemma check_routine_skipped:
  "\<not> truthy_string routineId \<Longrightarrow> check_routine routineId u d = (Inr (), d)"
  by (simp add: check_routine_def)

lemma check_routine_run:
  "truthy_string routineId \<Longrightarrow>
   check_routine routineId u d =
     (if owns_routine u routineId d then Inr () else Inl FORBIDDEN,
      d\<lparr>trace := trace d @ [SELECT Routines]\<rparr>)"
  by (auto simp: check_routine_def select_routines_def owns_routine_def filter_empty_conv
      split: list.split)

lemma references_routine_trace [simp]:
  "references_routine (d\<lparr>trace := t\<rparr>) routineId = references_routine d routineId"
  by (cases routineId) (simp_all add: references_routine_def)

lemma owns_references: "owns_routine u routineId d \<Longrightarrow> references_routine d routineId"
  by (auto simp: owns_routine_def references_routine_def)

lemma createSleepLog_unowned:
  assumes "ctx_user ctx = Some u"
    and "truthy_string (read_key (cl_routineId input))"
    and "\<not> owns_routine u (read_key (cl_routineId input)) d"
  shows "createSleepLog now uuid input ctx d
         = (Inl FORBIDDEN, d\<lparr>trace := trace d @ [SELECT Routines]\<rparr>)"
  using assms
  by (simp add: createSleepLog_def requireUser_Some check_routine_run)

lemma createSleepLog_owned:
  assumes "ctx_user ctx = Some u"
    and "truthy_string (read_key (cl_routineId input))"
    and "owns_routine u (read_key (cl_routineId input)) d"
  shows "createSleepLog now uuid input ctx d
         = (Inr (uuid 0),
            d\<lparr>trace := trace d @ [SELECT Routines, INSERT Logs],
              SleepLogs := SleepLogs d @ [created_log now uuid input u]\<rparr>)"
  using assms owns_references [OF assms(3)]
  by (simp add: createSleepLog_def requireUser_Some check_routine_run insert_logs_def Let_def
      created_log_def)

lemma createSleepLog_unchecked:
  assumes "ctx_user ctx = Some u"
    and "\<not> truthy_string (read_key (cl_routineId input))"
  shows "createSleepLog now uuid input ctx d
         = (if references_routine d (read_key (cl_routineId input))
            then (Inr (uuid 0),
                  d\<lparr>trace := trace d @ [INSERT Logs],
                    SleepLogs := SleepLogs d @ [created_log now uuid input u]\<rparr>)
            else (Inl INTERNAL_SERVER_ERROR, d\<lparr>trace := trace d @ [INSERT Logs]\<rparr>))"
  using assms
  by (simp add: createSleepLog_def requireUser_Some check_routine_skipped insert_logs_def Let_def
      created_log_def)

lemma createSleepLog_fst:
  assumes "ctx_user ctx = Some u"
  shows "fst (createSleepLog now uuid input ctx d) =
         (if truthy_string (read_key (cl_routineId input))
             \<and> \<not> owns_routine u (read_key (cl_routineId input)) d
          then Inl FORBIDDEN
          else if references_routine d (read_key (cl_routineId input)) then Inr (uuid 0)
          else Inl INTERNAL_SERVER_ERROR)"
proof (cases "truthy_string (read_key (cl_routineId input))")
  case True
  show ?thesis
  proof (cases "owns_routine u (read_key (cl_routineId input)) d")
    case owned: True
    show ?thesis
      unfolding createSleepLog_owned [OF assms True owned]
      using True owned owns_references [OF owned] by simp
  next
    case False
    show ?thesis
      unfolding createSleepLog_unowned [OF assms True False] using True False by simp
  qed
next
  case False
  show ?thesis
    unfolding createSleepLog_unchecked [OF assms False] using False by simp
qed

lemma createSleepLog_trace:
  assumes "ctx_user ctx = Some u"
  shows "trace (snd (createSleepLog now uuid input ctx d)) =
         trace d @
           (if truthy_string (read_key (cl_routineId input))
            then SELECT Routines #
                   (if owns_routine u (read_key (cl_routineId input)) d then [INSERT Logs] else [])
            else [INSERT Logs])"
proof (cases "truthy_string (read_key (cl_routineId input))")
  case True
  show ?thesis
  proof (cases "owns_routine u (read_key (cl_routineId input)) d")
    case owned: True
    show ?thesis
      unfolding createSleepLog_owned [OF assms True owned] using True owned by simp
  next
    case False
    show ?thesis
      unfolding createSleepLog_unowned [OF assms True False] using True False by simp
  qed
next
  case False
  show ?thesis
    unfolding createSleepLog_unchecked [OF assms False] using False by simp
qed

lemma createSleepLog_logs:
  assumes "ctx_user ctx = Some u"
  shows "SleepLogs (snd (createSleepLog now uuid input ctx d)) =
         (if fst (createSleepLog now uuid input ctx d) = Inr (uuid 0)
          then SleepLogs d @ [created_log now uuid input u]
          else SleepLogs d)"
proof (cases "truthy_string (read_key (cl_routineId input))")
  case True
  show ?thesis
  proof (cases "owns_routine u (read_key (cl_routineId input)) d")
    case owned: True
    show ?thesis
      unfolding createSleepLog_owned [OF assms True owned] by simp
  next
    case False
    show ?thesis
      unfolding createSleepLog_unowned [OF assms True False] by simp
  qed
next
  case False
  show ?thesis
    unfolding createSleepLog_unchecked [OF assms False] by simp
qed

lemma updateSleepLog_missing:
  assumes "ctx_user ctx = Some u"
    and "\<not> (\<exists>l \<in> set (SleepLogs d). l_id l = ul_id input \<and> l_userId l = uid u)"
  shows "fst (updateSleepLog input ctx d) = Inl NOT_FOUND"
  using assms
  by (simp add: updateSleepLog_def requireUser_Some select_logs_def filter_empty_conv)

lemma log_patch_routineId: "q_routineId (log_updateData input) = read_key (ul_routineId input)"
  by (simp add: log_updateData_def copy_key_read)

lemma log_patch_keys_routineId:
  "read_key (ul_routineId input) = Some rid \<Longrightarrow> log_patch_keys (log_updateData input) > 0"
  by (simp add: log_patch_keys_def log_updateData_def copy_key_read)

text \<open>
  \<open>updateSleepLog\<close> once the log is found, in three cases: the check refuses; the check is
  passed or skipped and the update is rejected; the check is passed or skipped and the
  update, if there is one, goes through.
\<close>

lemma updateSleepLog_unowned:
  assumes "ctx_user ctx = Some u"
    and "\<exists>l \<in> set (SleepLogs d). l_id l = ul_id input \<and> l_userId l = uid u"
    and "truthy_string (read_key (ul_routineId input))"
    and "\<not> owns_routine u (read_key (ul_routineId input)) d"
  shows "updateSleepLog input ctx d
         = (Inl FORBIDDEN, d\<lparr>trace := trace d @ [SELECT Logs, SELECT Routines]\<rparr>)"
proof -
  obtain l ls where sel:
    "filter (\<lambda>l. l_id l = ul_id input \<and> l_userId l = uid u) (SleepLogs d) = l # ls"
    using assms(2)
    by (cases "filter (\<lambda>l. l_id l = ul_id input \<and> l_userId l = uid u) (SleepLogs d)")
      (auto simp: filter_empty_conv)
  have own: "\<not> owns_routine u (read_key (ul_routineId input))
                 (d\<lparr>trace := trace d @ [SELECT Logs]\<rparr>)"
    using assms(4) by (simp add: owns_routine_def)
  show ?thesis
    using assms(1,3) sel own
    by (simp add: updateSleepLog_def requireUser_Some select_logs_def check_routine_run)
qed

lemma updateSleepLog_passed:
  assumes "ctx_user ctx = Some u"
    and "\<exists>l \<in> set (SleepLogs d). l_id l = ul_id input \<and> l_userId l = uid u"
    and "truthy_string (read_key (ul_routineId input)) \<longrightarrow>
           owns_routine u (read_key (ul_routineId input)) d"
  shows "updateSleepLog input ctx d
         = (let checked = (if truthy_string (read_key (ul_routineId input))
                           then [SELECT Routines] else [])
            in if log_patch_keys (log_updateData input) = 0
               then (Inr (), d\<lparr>trace := trace d @ SELECT Logs # checked\<rparr>)
               else if references_routine d (read_key (ul_routineId input))
               then (Inr (),
                     d\<lparr>trace := trace d @ SELECT Logs # checked @ [UPDATE Logs],
                       SleepLogs := map (\<lambda>l. if l_id l = ul_id input \<and> l_userId l = uid u
                                               then set_log (log_updateData input) l else l)
                                      (SleepLogs d)\<rparr>)
               else (Inl INTERNAL_SERVER_ERROR,
                     d\<lparr>trace := trace d @ SELECT Logs # checked @ [UPDATE Logs]\<rparr>))"
proof -
  obtain l ls where sel:
    "filter (\<lambda>l. l_id l = ul_id input \<and> l_userId l = uid u) (SleepLogs d) = l # ls"
    using assms(2)
    by (cases "filter (\<lambda>l. l_id l = ul_id input \<and> l_userId l = uid u) (SleepLogs d)")
      (auto simp: filter_empty_conv)
  show ?thesis
  proof (cases "truthy_string (read_key (ul_routineId input))")
    case True
    then have "owns_routine u (read_key (ul_routineId input)) d" using assms(3) by simp
    then have own: "owns_routine u (read_key (ul_routineId input))
                      (d\<lparr>trace := trace d @ [SELECT Logs]\<rparr>)"
      by (simp add: owns_routine_def)
    show ?thesis
      using assms(1) sel True own
      by (simp add: updateSleepLog_def requireUser_Some select_logs_def check_routine_run
          update_logs_def Let_def log_patch_routineId)
  next
    case False
    show ?thesis
      using assms(1) sel False
      by (simp add: updateSleepLog_def requireUser_Some select_logs_def check_routine_skipped
          update_logs_def Let_def log_patch_routineId)
  qed
qed

lemma iso_text_key_samples:
  "iso_text_key 0 = (2, 0, 0)"
  "iso_text_key 253402300799999 = (2, 253402300799999, 0)"
  "iso_text_key 253402300800000 = (0, 253402300800000, 0)"
  "iso_text_key (- 62167219200000) = (2, - 62167219200000, 0)"
  "iso_text_key (- 62167219200001) = (1, 1, 31535999999)"
  "iso_text_key (- 62198755200000) = (1, 1, 0)"
  "iso_text_key (- 62198755200001) = (1, 2, 31535999999)"
  by (simp_all add: iso_text_key_def year_of_day_def year_start_day_def Let_def)






section \<open>The claims\<close>

text \<open>
  C1, as amended. After \<open>createRoutine\<close> has run for a signed-in user with a non-empty list
  of \<open>N\<close> step definitions in which every supplied \<open>orderIndex\<close> and \<open>minutesBeforeBed\<close> is
  a safe integer (of magnitude at most \<open>2^53 - 1\<close>), \<open>getRoutineWithSteps\<close> by the same user
  on the returned identifier succeeds with the new routine and returns exactly \<open>N\<close> steps,
  ascending by order index; the returned steps are the supplied ones, each with the order
  index the caller gave or, without one, its 1-based position. The list is a JavaScript
  array, of fewer than \<open>2^32\<close> elements, and the identifier drawn for the routine is fresh: no
  stored step references it yet.
\<close>

theorem createRoutine_then_getRoutineWithSteps:
  assumes user: "ctx_user ctx = Some u"
    and steps: "read_key (cr_steps input) = Some steps" "steps \<noteq> []"
    and array: "length steps < 4294967296"
    and safe: "\<forall>step \<in> set steps. step_input_safe step"
    and fresh: "\<forall>s \<in> set (SleepRoutineSteps d). s_routineId s \<noteq> uuid 0"
    and created: "createRoutine now uuid input ctx d = (Inr rid, d')"
  shows "\<exists>routine got. fst (getRoutineWithSteps rid ctx d') = Inr (routine, got)
           \<and> r_id routine = rid \<and> r_userId routine = uid u
           \<and> length got = length steps
           \<and> sorted (map s_orderIndex got)
           \<and> mset (map (\<lambda>s. (s_title s, s_orderIndex s)) got)
             = mset (map (\<lambda>(index, step).
                            (si_title step, nullish (read_key (si_orderIndex step)) (int index + 1)))
                       (enumerate 0 steps))"
proof -
  let ?new = "stepValues rid now (\<lambda>index. uuid (Suc index)) steps"
  have rid: "rid = uuid 0"
    using createRoutine_fst [OF user, of now uuid input d] created by simp
  have tbl: "SleepRoutineSteps d' = SleepRoutineSteps d @ ?new"
    using createRoutine_steps [OF user, of now uuid input d] created steps rid
    by (simp add: created_steps_def)
  have old: "filter (\<lambda>s. s_routineId s = rid) (SleepRoutineSteps d) = []"
    using fresh rid by (simp add: filter_empty_conv)
  have new: "filter (\<lambda>s. s_routineId s = rid) ?new = ?new"
    by (simp add: filter_id_conv stepValues_routineId)
  have sel: "filter (\<lambda>s. s_routineId s = rid) (SleepRoutineSteps d') = ?new"
    using tbl old new by simp
  have readable: "list_all step_readable
                    (filter (\<lambda>s. s_routineId s = rid) (SleepRoutineSteps d'))"
    unfolding sel by (rule stepValues_readable [OF array safe])
  obtain routine rest where found:
    "filter (\<lambda>r. r_id r = rid \<and> r_userId r = uid u) (SleepRoutines d') = routine # rest"
  proof (cases "filter (\<lambda>r. r_id r = rid \<and> r_userId r = uid u) (SleepRoutines d')")
    case Nil
    then show ?thesis
      using createRoutine_routines [OF user, of now uuid input d] created rid by simp
  next
    case (Cons a list)
    then show ?thesis using that by blast
  qed
  have "routine \<in> set (filter (\<lambda>r. r_id r = rid \<and> r_userId r = uid u) (SleepRoutines d'))"
    unfolding found by simp
  then have mine: "r_id routine = rid \<and> r_userId routine = uid u"
    by simp
  have got: "fst (getRoutineWithSteps rid ctx d') = Inr (routine, sort_key s_orderIndex ?new)"
    using getRoutineWithSteps_found [OF user found readable] sel by simp
  have len: "length (sort_key s_orderIndex ?new) = length steps"
    by (simp add: length_stepValues)
  have asc: "sorted (map s_orderIndex (sort_key s_orderIndex ?new))"
    by (rule sorted_sort_key)
  have perm: "mset (map (\<lambda>s. (s_title s, s_orderIndex s)) (sort_key s_orderIndex ?new))
              = mset (map (\<lambda>s. (s_title s, s_orderIndex s)) ?new)"
    by simp
  have keys: "mset (map (\<lambda>s. (s_title s, s_orderIndex s)) (sort_key s_orderIndex ?new))
              = mset (map (\<lambda>(index, step).
                            (si_title step, nullish (read_key (si_orderIndex step)) (int index + 1)))
                       (enumerate 0 steps))"
    unfolding perm stepValues_keys by (rule refl)
  show ?thesis
    by (intro exI [of _ routine] exI [of _ "sort_key s_orderIndex ?new"])
      (rule conjI [OF got conjI [OF conjunct1 [OF mine] conjI [OF conjunct2 [OF mine]
         conjI [OF len conjI [OF asc keys]]]]])
qed

theorem createRoutine_then_getRoutineWithSteps_witness:
  "ctx_user (signed_in ''ann'') = Some \<lparr>uid = ''ann''\<rparr>
   \<and> length (SleepRoutineSteps ex_db) = 2
   \<and> list_all step_input_safe
        [ex_step ''Dim lights'' Absent, ex_step ''Read'' (Present 5), ex_step ''Stretch'' Undefined]
   \<and> fst (createRoutine 1000 ex_uuid ex_evening (signed_in ''ann'') ex_db) = Inr (ex_uuid 0)
   \<and> (\<exists>routine got.
         fst (getRoutineWithSteps (ex_uuid 0) (signed_in ''ann'')
                (snd (createRoutine 1000 ex_uuid ex_evening (signed_in ''ann'') ex_db)))
           = Inr (routine, got)
         \<and> r_id routine = ex_uuid 0
         \<and> length got = 3
         \<and> sorted (map s_orderIndex got)
         \<and> mset (map (\<lambda>s. (s_title s, s_orderIndex s)) got)
           = mset [(''Dim lights'', 1), (''Read'', 5), (''Stretch'', 3)])"
proof -
  have user: "ctx_user (signed_in ''ann'') = Some \<lparr>uid = ''ann''\<rparr>"
    by (rule ctx_user_signed_in)
  have steps: "read_key (cr_steps ex_evening)
               = Some [ex_step ''Dim lights'' Absent, ex_step ''Read'' (Present 5),
                       ex_step ''Stretch'' Undefined]"
    by (simp add: ex_evening_def)
  have nonempty: "[ex_step ''Dim lights'' Absent, ex_step ''Read'' (Present 5),
                   ex_step ''Stretch'' Undefined] \<noteq> []"
    by simp
  have array: "length [ex_step ''Dim lights'' Absent, ex_step ''Read'' (Present 5),
                       ex_step ''Stretch'' Undefined] < 4294967296"
    by simp
  have safe': "list_all step_input_safe
        [ex_step ''Dim lights'' Absent, ex_step ''Read'' (Present 5), ex_step ''Stretch'' Undefined]"
    by (simp add: step_input_safe_def ex_step_def safe_integer_def)
  have safe: "\<forall>step \<in> set [ex_step ''Dim lights'' Absent, ex_step ''Read'' (Present 5),
                             ex_step ''Stretch'' Undefined]. step_input_safe step"
    using safe' by (simp only: list_all_iff)
  have stored: "length (SleepRoutineSteps ex_db) = 2"
    by (simp add: ex_db_def)
  have fresh: "\<forall>s \<in> set (SleepRoutineSteps ex_db). s_routineId s \<noteq> ex_uuid 0"
    by (simp add: ex_db_def ex_stored_step_def ex_uuid_def)
  have ok: "fst (createRoutine 1000 ex_uuid ex_evening (signed_in ''ann'') ex_db) = Inr (ex_uuid 0)"
    by (rule createRoutine_fst [OF user])
  have created: "createRoutine 1000 ex_uuid ex_evening (signed_in ''ann'') ex_db
                 = (Inr (ex_uuid 0),
                    snd (createRoutine 1000 ex_uuid ex_evening (signed_in ''ann'') ex_db))"
    by (rule prod_eqI) (simp_all only: fst_conv snd_conv ok)
  obtain routine got where
    g1: "fst (getRoutineWithSteps (ex_uuid 0) (signed_in ''ann'')
                (snd (createRoutine 1000 ex_uuid ex_evening (signed_in ''ann'') ex_db)))
           = Inr (routine, got)"
    and g2: "r_id routine = ex_uuid 0"
    and g3: "length got = length [ex_step ''Dim lights'' Absent, ex_step ''Read'' (Present 5),
                                  ex_step ''Stretch'' Undefined]"
    and g4: "sorted (map s_orderIndex got)"
    and g5: "mset (map (\<lambda>s. (s_title s, s_orderIndex s)) got)
             = mset (map (\<lambda>(index, step).
                            (si_title step, nullish (read_key (si_orderIndex step)) (int index + 1)))
                       (enumerate 0 [ex_step ''Dim lights'' Absent, ex_step ''Read'' (Present 5),
                                     ex_step ''Stretch'' Undefined]))"
    using createRoutine_then_getRoutineWithSteps [OF user steps nonempty array safe fresh created] by blast
  have g3': "length got = 3" using g3 by simp
  have g5': "mset (map (\<lambda>s. (s_title s, s_orderIndex s)) got)
             = mset [(''Dim lights'', 1), (''Read'', 5), (''Stretch'', 3)]"
    unfolding g5 by (simp add: ex_step_def)
  have ex: "\<exists>routine got.
         fst (getRoutineWithSteps (ex_uuid 0) (signed_in ''ann'')
                (snd (createRoutine 1000 ex_uuid ex_evening (signed_in ''ann'') ex_db)))
           = Inr (routine, got)
         \<and> r_id routine = ex_uuid 0
         \<and> length got = 3
         \<and> sorted (map s_orderIndex got)
         \<and> mset (map (\<lambda>s. (s_title s, s_orderIndex s)) got)
           = mset [(''Dim lights'', 1), (''Read'', 5), (''Stretch'', 3)]"
    by (intro exI [of _ routine] exI [of _ got])
      (rule conjI [OF g1 conjI [OF g2 conjI [OF g3' conjI [OF g4 g5']]]])
  show ?thesis by (rule conjI [OF user conjI [OF stored conjI [OF safe' conjI [OF ok ex]]]])
qed

text \<open>
  The claim without the bound fails: \<open>orderIndex = 2^60\<close> passes
  \<open>z.number().int().min(1)\<close>, \<open>createRoutine\<close> stores it, and the fetch of the new routine
  fails when the step is read back.
\<close>

theorem createRoutine_unsafe_orderIndex_counterexample:
  "read_key (cr_steps ex_far_index) = Some [ex_step ''Read'' (Present 1152921504606846976)]
   \<and> fst (createRoutine 1000 ex_uuid ex_far_index (signed_in ''ann'') ex_db) = Inr (ex_uuid 0)
   \<and> fst (getRoutineWithSteps (ex_uuid 0) (signed_in ''ann'')
            (snd (createRoutine 1000 ex_uuid ex_far_index (signed_in ''ann'') ex_db)))
     = Inl INTERNAL_SERVER_ERROR"
proof -
  have user: "ctx_user (signed_in ''ann'') = Some \<lparr>uid = ''ann''\<rparr>"
    by (rule ctx_user_signed_in)
  have a: "read_key (cr_steps ex_far_index) = Some [ex_step ''Read'' (Present 1152921504606846976)]"
    by (simp add: ex_far_index_def)
  have b: "fst (createRoutine 1000 ex_uuid ex_far_index (signed_in ''ann'') ex_db) = Inr (ex_uuid 0)"
    by (rule createRoutine_fst [OF user])
  have found: "filter (\<lambda>r. r_id r = ex_uuid 0 \<and> r_userId r = uid \<lparr>uid = ''ann''\<rparr>)
                 (SleepRoutines (snd (createRoutine 1000 ex_uuid ex_far_index (signed_in ''ann'') ex_db)))
               = [\<lparr>r_id = ex_uuid 0, r_userId = ''ann'', r_name = ''Evening'',
                    r_goalDescription = None, r_targetBedTimeLocal = None,
                    r_targetWakeTimeLocal = None, r_timeZone = None, r_notes = None,
                    r_isActive = True, r_createdAt = 1000, r_updatedAt = 1000\<rparr>]"
    unfolding createRoutine_routines [OF user]
    by (simp add: ex_far_index_def ex_db_def ex_routine_def ex_uuid_def)
  have unreadable: "\<not> list_all step_readable
                       (filter (\<lambda>s. s_routineId s = ex_uuid 0)
                          (SleepRoutineSteps
                             (snd (createRoutine 1000 ex_uuid ex_far_index (signed_in ''ann'') ex_db))))"
    unfolding createRoutine_steps [OF user]
    by (simp add: created_steps_def ex_far_index_def stepValues_def ex_step_def ex_db_def
        ex_stored_step_def ex_uuid_def step_readable_def safe_integer_def)
  have c: "fst (getRoutineWithSteps (ex_uuid 0) (signed_in ''ann'')
            (snd (createRoutine 1000 ex_uuid ex_far_index (signed_in ''ann'') ex_db)))
     = Inl INTERNAL_SERVER_ERROR"
    by (rule getRoutineWithSteps_unreadable [OF user found unreadable])
  show ?thesis by (rule conjI [OF a conjI [OF b c]])
qed

text \<open>
  C2, as amended. For a signed-in caller \<open>createSleepLog\<close> fails with \<open>FORBIDDEN\<close> exactly
  when the routine reference is a non-empty string and no routine with that identifier is
  owned by the caller; with a non-empty reference to a routine of the caller it succeeds; with
  no reference it succeeds. In particular a call whose reference is missing or is the empty
  string never fails with \<open>FORBIDDEN\<close>.
\<close>

theorem createSleepLog_forbidden_iff_unowned_reference:
  assumes user: "ctx_user ctx = Some u"
  shows "(fst (createSleepLog now uuid input ctx d) = Inl FORBIDDEN)
           = (truthy_string (read_key (cl_routineId input))
              \<and> \<not> owns_routine u (read_key (cl_routineId input)) d)
       \<and> (truthy_string (read_key (cl_routineId input))
            \<and> owns_routine u (read_key (cl_routineId input)) d \<longrightarrow>
          fst (createSleepLog now uuid input ctx d) = Inr (uuid 0))
       \<and> (read_key (cl_routineId input) = None \<longrightarrow>
          fst (createSleepLog now uuid input ctx d) = Inr (uuid 0))"
proof -
  have a: "(fst (createSleepLog now uuid input ctx d) = Inl FORBIDDEN)
           = (truthy_string (read_key (cl_routineId input))
              \<and> \<not> owns_routine u (read_key (cl_routineId input)) d)"
    unfolding createSleepLog_fst [OF user] by simp
  have b: "truthy_string (read_key (cl_routineId input))
            \<and> owns_routine u (read_key (cl_routineId input)) d \<longrightarrow>
          fst (createSleepLog now uuid input ctx d) = Inr (uuid 0)"
    unfolding createSleepLog_fst [OF user] using owns_references by auto
  have c: "read_key (cl_routineId input) = None \<longrightarrow>
          fst (createSleepLog now uuid input ctx d) = Inr (uuid 0)"
    unfolding createSleepLog_fst [OF user] by (simp add: references_routine_def)
  show ?thesis by (rule conjI [OF a conjI [OF b c]])
qed

theorem createSleepLog_forbidden_iff_unowned_reference_witness:
  "ctx_user (signed_in ''ann'') = Some \<lparr>uid = ''ann''\<rparr>
   \<and> truthy_string (read_key (cl_routineId (ex_create_log (Present ''r2''))))
   \<and> \<not> owns_routine \<lparr>uid = ''ann''\<rparr> (read_key (cl_routineId (ex_create_log (Present ''r2'')))) ex_log_db
   \<and> fst (createSleepLog 5 ex_uuid (ex_create_log (Present ''r2'')) (signed_in ''ann'') ex_log_db)
     = Inl FORBIDDEN
   \<and> truthy_string (read_key (cl_routineId (ex_create_log (Present ''r1''))))
   \<and> owns_routine \<lparr>uid = ''ann''\<rparr> (read_key (cl_routineId (ex_create_log (Present ''r1'')))) ex_log_db
   \<and> fst (createSleepLog 5 ex_uuid (ex_create_log (Present ''r1'')) (signed_in ''ann'') ex_log_db)
     = Inr (ex_uuid 0)
   \<and> read_key (cl_routineId (ex_create_log Absent)) = None
   \<and> fst (createSleepLog 5 ex_uuid (ex_create_log Absent) (signed_in ''ann'') ex_log_db)
     = Inr (ex_uuid 0)"
proof -
  have user: "ctx_user (signed_in ''ann'') = Some \<lparr>uid = ''ann''\<rparr>"
    by (rule ctx_user_signed_in)
  have t2: "truthy_string (read_key (cl_routineId (ex_create_log (Present ''r2''))))"
    by (simp add: ex_create_log_def)
  have n2: "\<not> owns_routine \<lparr>uid = ''ann''\<rparr>
                (read_key (cl_routineId (ex_create_log (Present ''r2'')))) ex_log_db"
    by (simp add: owns_routine_def ex_create_log_def ex_log_db_def ex_routine_def)
  have t1: "truthy_string (read_key (cl_routineId (ex_create_log (Present ''r1''))))"
    by (simp add: ex_create_log_def)
  have o1: "owns_routine \<lparr>uid = ''ann''\<rparr>
              (read_key (cl_routineId (ex_create_log (Present ''r1'')))) ex_log_db"
    by (simp add: owns_routine_def ex_create_log_def ex_log_db_def ex_routine_def)
  have none: "read_key (cl_routineId (ex_create_log Absent)) = None"
    by (simp add: ex_create_log_def)
  note foreign = createSleepLog_forbidden_iff_unowned_reference [OF user,
      where now = 5 and uuid = ex_uuid and input = "ex_create_log (Present ''r2'')"
        and d = ex_log_db]
  note mine = createSleepLog_forbidden_iff_unowned_reference [OF user,
      where now = 5 and uuid = ex_uuid and input = "ex_create_log (Present ''r1'')"
        and d = ex_log_db]
  note bare = createSleepLog_forbidden_iff_unowned_reference [OF user,
      where now = 5 and uuid = ex_uuid and input = "ex_create_log Absent" and d = ex_log_db]
  have r2: "fst (createSleepLog 5 ex_uuid (ex_create_log (Present ''r2'')) (signed_in ''ann'')
                  ex_log_db) = Inl FORBIDDEN"
    by (rule iffD2 [OF foreign [THEN conjunct1] conjI [OF t2 n2]])
  have r1: "fst (createSleepLog 5 ex_uuid (ex_create_log (Present ''r1'')) (signed_in ''ann'')
                  ex_log_db) = Inr (ex_uuid 0)"
    by (rule mp [OF mine [THEN conjunct2, THEN conjunct1] conjI [OF t1 o1]])
  have r0: "fst (createSleepLog 5 ex_uuid (ex_create_log Absent) (signed_in ''ann'') ex_log_db)
            = Inr (ex_uuid 0)"
    by (rule mp [OF bare [THEN conjunct2, THEN conjunct2] none])
  show ?thesis
    by (rule conjI [OF user conjI [OF t2 conjI [OF n2 conjI [OF r2 conjI [OF t1 conjI [OF o1
          conjI [OF r1 conjI [OF none r0]]]]]]]])
qed

text \<open>
  The claim as stated fails at the empty string: it is a supplied reference that resolves to
  no routine of the caller, and the call does not fail with \<open>FORBIDDEN\<close> (the check is
  skipped and the insert is rejected by the foreign key).
\<close>

theorem createSleepLog_empty_reference_counterexample:
  "read_key (cl_routineId ex_create_blank) = Some ''''
   \<and> \<not> owns_routine \<lparr>uid = ''ann''\<rparr> (read_key (cl_routineId ex_create_blank)) ex_log_db
   \<and> fst (createSleepLog 5 ex_uuid ex_create_blank (signed_in ''ann'') ex_log_db)
     = Inl INTERNAL_SERVER_ERROR"
proof -
  have user: "ctx_user (signed_in ''ann'') = Some \<lparr>uid = ''ann''\<rparr>"
    by (rule ctx_user_signed_in)
  have a: "read_key (cl_routineId ex_create_blank) = Some ''''"
    by (simp add: ex_create_blank_def)
  have b: "\<not> owns_routine \<lparr>uid = ''ann''\<rparr> (read_key (cl_routineId ex_create_blank)) ex_log_db"
    by (simp add: owns_routine_def ex_create_blank_def ex_log_db_def ex_routine_def)
  have c: "fst (createSleepLog 5 ex_uuid ex_create_blank (signed_in ''ann'') ex_log_db)
           = Inl INTERNAL_SERVER_ERROR"
    unfolding createSleepLog_fst [OF user]
    by (simp add: ex_create_blank_def references_routine_def ex_log_db_def ex_routine_def)
  show ?thesis by (rule conjI [OF a conjI [OF b c]])
qed

text \<open>
  C3. When \<open>updateRoutine\<close> succeeds, every routine row keeps its \<open>id\<close>, \<open>userId\<close>,
  \<open>isActive\<close> and \<open>createdAt\<close>; a column whose input field is missing or \<open>undefined\<close>
  (both read as \<open>undefined\<close>) keeps its prior value; the rows matching the identifier and the
  caller get \<open>updatedAt = now\<close>, every other row is unchanged; and such a matching row exists.
\<close>

theorem updateRoutine_sparse_patch:
  assumes user: "ctx_user ctx = Some u"
    and ok: "fst (updateRoutine now uuid input ctx d) = Inr ()"
  shows "list_all2
           (\<lambda>r r'.
              r_id r' = r_id r \<and> r_userId r' = r_userId r
              \<and> r_isActive r' = r_isActive r \<and> r_createdAt r' = r_createdAt r
              \<and> (read_key (ur_name input) = None \<longrightarrow> r_name r' = r_name r)
              \<and> (read_key (ur_goalDescription input) = None \<longrightarrow>
                   r_goalDescription r' = r_goalDescription r)
              \<and> (read_key (ur_targetBedTimeLocal input) = None \<longrightarrow>
                   r_targetBedTimeLocal r' = r_targetBedTimeLocal r)
              \<and> (read_key (ur_targetWakeTimeLocal input) = None \<longrightarrow>
                   r_targetWakeTimeLocal r' = r_targetWakeTimeLocal r)
              \<and> (read_key (ur_timeZone input) = None \<longrightarrow> r_timeZone r' = r_timeZone r)
              \<and> (read_key (ur_notes input) = None \<longrightarrow> r_notes r' = r_notes r)
              \<and> (if r_id r = ur_id input \<and> r_userId r = uid u
                  then r_updatedAt r' = now else r' = r))
           (SleepRoutines d) (SleepRoutines (snd (updateRoutine now uuid input ctx d)))
         \<and> (\<exists>r \<in> set (SleepRoutines d). r_id r = ur_id input \<and> r_userId r = uid u)"
proof -
  have found: "filter (\<lambda>r. r_id r = ur_id input \<and> r_userId r = uid u) (SleepRoutines d) \<noteq> []"
    by (rule updateRoutine_success_found [OF user ok])
  have rows: "SleepRoutines (snd (updateRoutine now uuid input ctx d)) =
         map (\<lambda>r. if r_id r = ur_id input \<and> r_userId r = uid u
                   then set_routine (routine_updateData now input) r else r) (SleepRoutines d)"
    by (rule updateRoutine_routines [OF user found])
  have ex: "\<exists>r \<in> set (SleepRoutines d). r_id r = ur_id input \<and> r_userId r = uid u"
    using found by (auto simp: filter_empty_conv)
  show ?thesis
    unfolding rows list.rel_map list_all2_same
    using ex
    by (auto simp: set_routine_def routine_updateData_def copy_key_read)
qed

theorem updateRoutine_sparse_patch_witness:
  "ctx_user (signed_in ''ann'') = Some \<lparr>uid = ''ann''\<rparr>
   \<and> fst (updateRoutine 77 ex_uuid ex_notes_only (signed_in ''ann'') ex_db) = Inr ()
   \<and> list_all2
        (\<lambda>r r'. r_id r' = r_id r \<and> r_userId r' = r_userId r \<and> r_isActive r' = r_isActive r
                \<and> r_createdAt r' = r_createdAt r \<and> r_name r' = r_name r
                \<and> r_goalDescription r' = r_goalDescription r
                \<and> (r_id r = ''r1'' \<and> r_userId r = ''ann'' \<longrightarrow> r_updatedAt r' = 77))
        (SleepRoutines ex_db)
        (SleepRoutines (snd (updateRoutine 77 ex_uuid ex_notes_only (signed_in ''ann'') ex_db)))"
proof -
  have user: "ctx_user (signed_in ''ann'') = Some \<lparr>uid = ''ann''\<rparr>"
    by (rule ctx_user_signed_in)
  have found: "filter (\<lambda>r. r_id r = ur_id ex_notes_only \<and> r_userId r = uid \<lparr>uid = ''ann''\<rparr>)
                 (SleepRoutines ex_db) \<noteq> []"
    by (simp add: ex_db_def ex_notes_only_def ex_routine_def)
  have ok: "fst (updateRoutine 77 ex_uuid ex_notes_only (signed_in ''ann'') ex_db) = Inr ()"
    by (rule updateRoutine_found [OF user found])
  have frame: "list_all2
        (\<lambda>r r'. r_id r' = r_id r \<and> r_userId r' = r_userId r \<and> r_isActive r' = r_isActive r
                \<and> r_createdAt r' = r_createdAt r \<and> r_name r' = r_name r
                \<and> r_goalDescription r' = r_goalDescription r
                \<and> (r_id r = ''r1'' \<and> r_userId r = ''ann'' \<longrightarrow> r_updatedAt r' = 77))
        (SleepRoutines ex_db)
        (SleepRoutines (snd (updateRoutine 77 ex_uuid ex_notes_only (signed_in ''ann'') ex_db)))"
  proof (rule list_all2_mono [OF conjunct1 [OF updateRoutine_sparse_patch [OF user ok]]])
    fix r r'
    assume "r_id r' = r_id r \<and> r_userId r' = r_userId r
              \<and> r_isActive r' = r_isActive r \<and> r_createdAt r' = r_createdAt r
              \<and> (read_key (ur_name ex_notes_only) = None \<longrightarrow> r_name r' = r_name r)
              \<and> (read_key (ur_goalDescription ex_notes_only) = None \<longrightarrow>
                   r_goalDescription r' = r_goalDescription r)
              \<and> (read_key (ur_targetBedTimeLocal ex_notes_only) = None \<longrightarrow>
                   r_targetBedTimeLocal r' = r_targetBedTimeLocal r)
              \<and> (read_key (ur_targetWakeTimeLocal ex_notes_only) = None \<longrightarrow>
                   r_targetWakeTimeLocal r' = r_targetWakeTimeLocal r)
              \<and> (read_key (ur_timeZone ex_notes_only) = None \<longrightarrow> r_timeZone r' = r_timeZone r)
              \<and> (read_key (ur_notes ex_notes_only) = None \<longrightarrow> r_notes r' = r_notes r)
              \<and> (if r_id r = ur_id ex_notes_only \<and> r_userId r = uid \<lparr>uid = ''ann''\<rparr>
                  then r_updatedAt r' = 77 else r' = r)"
    then show "r_id r' = r_id r \<and> r_userId r' = r_userId r \<and> r_isActive r' = r_isActive r
                \<and> r_createdAt r' = r_createdAt r \<and> r_name r' = r_name r
                \<and> r_goalDescription r' = r_goalDescription r
                \<and> (r_id r = ''r1'' \<and> r_userId r = ''ann'' \<longrightarrow> r_updatedAt r' = 77)"
      by (simp add: ex_notes_only_def split: if_splits)
  qed
  show ?thesis by (rule conjI [OF user conjI [OF ok frame]])
qed

text \<open>
  C4. For a routine owned by the caller, \<open>updateRoutine\<close> with \<open>steps: []\<close> succeeds and
  leaves no step of that routine (steps of other routines stay); \<open>updateRoutine\<close> without
  \<open>steps\<close> succeeds and leaves the step table as it was; and whenever the routine had a step,
  \<open>getRoutineWithSteps\<close> tells the two resulting states apart: after the first it returns no
  step; after the second it returns at least one step when the stored steps of the routine
  are readable, and fails with \<open>INTERNAL_SERVER_ERROR\<close> when one of them holds an integer
  outside the safe range.
\<close>

theorem updateRoutine_empty_steps_vs_omitted:
  assumes user: "ctx_user ctx = Some u"
    and owned: "\<exists>r \<in> set (SleepRoutines d). r_id r = ur_id input \<and> r_userId r = uid u"
    and emptied: "d_empty = snd (updateRoutine now uuid (input\<lparr>ur_steps := Present []\<rparr>) ctx d)"
    and omitted: "d_omit = snd (updateRoutine now uuid (input\<lparr>ur_steps := Absent\<rparr>) ctx d)"
  shows "fst (updateRoutine now uuid (input\<lparr>ur_steps := Present []\<rparr>) ctx d) = Inr ()
       \<and> fst (updateRoutine now uuid (input\<lparr>ur_steps := Absent\<rparr>) ctx d) = Inr ()
       \<and> filter (\<lambda>s. s_routineId s = ur_id input) (SleepRoutineSteps d_empty) = []
       \<and> filter (\<lambda>s. s_routineId s \<noteq> ur_id input) (SleepRoutineSteps d_empty)
         = filter (\<lambda>s. s_routineId s \<noteq> ur_id input) (SleepRoutineSteps d)
       \<and> SleepRoutineSteps d_omit = SleepRoutineSteps d
       \<and> ((\<exists>s \<in> set (SleepRoutineSteps d). s_routineId s = ur_id input) \<longrightarrow>
            (\<exists>routine. fst (getRoutineWithSteps (ur_id input) ctx d_empty) = Inr (routine, []))
          \<and> (if list_all step_readable
                    (filter (\<lambda>s. s_routineId s = ur_id input) (SleepRoutineSteps d))
              then \<exists>routine s ss. fst (getRoutineWithSteps (ur_id input) ctx d_omit)
                                    = Inr (routine, s # ss)
              else fst (getRoutineWithSteps (ur_id input) ctx d_omit)
                   = Inl INTERNAL_SERVER_ERROR)
          \<and> fst (getRoutineWithSteps (ur_id input) ctx d_empty)
            \<noteq> fst (getRoutineWithSteps (ur_id input) ctx d_omit))"
proof -
  let ?ie = "input\<lparr>ur_steps := Present []\<rparr>" and ?io = "input\<lparr>ur_steps := Absent\<rparr>"
  let ?own = "\<lambda>r. r_id r = ur_id input \<and> r_userId r = uid u"
  have fe: "filter (\<lambda>r. r_id r = ur_id ?ie \<and> r_userId r = uid u) (SleepRoutines d) \<noteq> []"
    using owned by (simp add: filter_owned_nonempty)
  have fo: "filter (\<lambda>r. r_id r = ur_id ?io \<and> r_userId r = uid u) (SleepRoutines d) \<noteq> []"
    using owned by (simp add: filter_owned_nonempty)
  have ok_e: "fst (updateRoutine now uuid ?ie ctx d) = Inr ()"
    by (rule updateRoutine_found [OF user fe])
  have ok_o: "fst (updateRoutine now uuid ?io ctx d) = Inr ()"
    by (rule updateRoutine_found [OF user fo])
  have steps_e: "SleepRoutineSteps d_empty
                 = filter (\<lambda>s. s_routineId s \<noteq> ur_id input) (SleepRoutineSteps d)"
    using updateRoutine_steps [OF user fe, of now uuid] emptied by (simp add: stepValues_Nil)
  have steps_o: "SleepRoutineSteps d_omit = SleepRoutineSteps d"
    using updateRoutine_steps [OF user fo, of now uuid] omitted by simp
  have none_e: "filter (\<lambda>s. s_routineId s = ur_id input) (SleepRoutineSteps d_empty) = []"
    unfolding steps_e by (simp add: filter_empty_conv)
  have others_e: "filter (\<lambda>s. s_routineId s \<noteq> ur_id input) (SleepRoutineSteps d_empty)
         = filter (\<lambda>s. s_routineId s \<noteq> ur_id input) (SleepRoutineSteps d)"
    unfolding steps_e by simp
  have still_e: "filter ?own (SleepRoutines d_empty) \<noteq> []"
    using updateRoutine_routines [OF user fe, of now uuid] emptied
      owned_after_update [OF owned set_routine_keeps_owner]
    by (simp add: filter_owned_nonempty)
  have still_o: "filter ?own (SleepRoutines d_omit) \<noteq> []"
    using updateRoutine_routines [OF user fo, of now uuid] omitted
      owned_after_update [OF owned set_routine_keeps_owner]
    by (simp add: filter_owned_nonempty)
  obtain re rest_e where re: "filter ?own (SleepRoutines d_empty) = re # rest_e"
    using still_e by (cases "filter ?own (SleepRoutines d_empty)") auto
  obtain ro rest_o where ro: "filter ?own (SleepRoutines d_omit) = ro # rest_o"
    using still_o by (cases "filter ?own (SleepRoutines d_omit)") auto
  have get_e: "fst (getRoutineWithSteps (ur_id input) ctx d_empty) = Inr (re, [])"
    using getRoutineWithSteps_found [OF user re] none_e by simp
  have get_o: "fst (getRoutineWithSteps (ur_id input) ctx d_omit)
               = Inr (ro, sort_key s_orderIndex
                            (filter (\<lambda>s. s_routineId s = ur_id input) (SleepRoutineSteps d)))"
    if "list_all step_readable
          (filter (\<lambda>s. s_routineId s = ur_id input) (SleepRoutineSteps d))"
    using getRoutineWithSteps_found [OF user ro] steps_o that by simp
  have fail_o: "fst (getRoutineWithSteps (ur_id input) ctx d_omit) = Inl INTERNAL_SERVER_ERROR"
    if "\<not> list_all step_readable
            (filter (\<lambda>s. s_routineId s = ur_id input) (SleepRoutineSteps d))"
    using getRoutineWithSteps_unreadable [OF user ro] steps_o that by simp
  have differ: "(\<exists>s \<in> set (SleepRoutineSteps d). s_routineId s = ur_id input) \<longrightarrow>
            (\<exists>routine. fst (getRoutineWithSteps (ur_id input) ctx d_empty) = Inr (routine, []))
          \<and> (if list_all step_readable
                    (filter (\<lambda>s. s_routineId s = ur_id input) (SleepRoutineSteps d))
              then \<exists>routine s ss. fst (getRoutineWithSteps (ur_id input) ctx d_omit)
                                    = Inr (routine, s # ss)
              else fst (getRoutineWithSteps (ur_id input) ctx d_omit)
                   = Inl INTERNAL_SERVER_ERROR)
          \<and> fst (getRoutineWithSteps (ur_id input) ctx d_empty)
            \<noteq> fst (getRoutineWithSteps (ur_id input) ctx d_omit)"
  proof
    assume "\<exists>s \<in> set (SleepRoutineSteps d). s_routineId s = ur_id input"
    then have "filter (\<lambda>s. s_routineId s = ur_id input) (SleepRoutineSteps d) \<noteq> []"
      by (simp add: filter_owned_nonempty)
    then have "length (sort_key s_orderIndex
                  (filter (\<lambda>s. s_routineId s = ur_id input) (SleepRoutineSteps d))) \<noteq> 0"
      by simp
    then obtain s ss where
      "sort_key s_orderIndex (filter (\<lambda>s. s_routineId s = ur_id input) (SleepRoutineSteps d))
       = s # ss"
      by (cases "sort_key s_orderIndex
                   (filter (\<lambda>s. s_routineId s = ur_id input) (SleepRoutineSteps d))") auto
    then show "(\<exists>routine. fst (getRoutineWithSteps (ur_id input) ctx d_empty) = Inr (routine, []))
          \<and> (if list_all step_readable
                    (filter (\<lambda>s. s_routineId s = ur_id input) (SleepRoutineSteps d))
              then \<exists>routine s ss. fst (getRoutineWithSteps (ur_id input) ctx d_omit)
                                    = Inr (routine, s # ss)
              else fst (getRoutineWithSteps (ur_id input) ctx d_omit)
                   = Inl INTERNAL_SERVER_ERROR)
          \<and> fst (getRoutineWithSteps (ur_id input) ctx d_empty)
            \<noteq> fst (getRoutineWithSteps (ur_id input) ctx d_omit)"
      using get_e get_o fail_o
      by (cases "list_all step_readable
                   (filter (\<lambda>s. s_routineId s = ur_id input) (SleepRoutineSteps d))") simp_all
  qed
  show ?thesis
    by (rule conjI [OF ok_e conjI [OF ok_o conjI [OF none_e conjI [OF others_e
          conjI [OF steps_o differ]]]]])
qed

theorem updateRoutine_empty_steps_vs_omitted_witness:
  "ctx_user (signed_in ''ann'') = Some \<lparr>uid = ''ann''\<rparr>
   \<and> (\<exists>r \<in> set (SleepRoutines ex_db). r_id r = ur_id ex_notes_only \<and> r_userId r = ''ann'')
   \<and> (\<exists>s \<in> set (SleepRoutineSteps ex_db). s_routineId s = ur_id ex_notes_only)
   \<and> filter (\<lambda>s. s_routineId s = ur_id ex_notes_only)
        (SleepRoutineSteps (snd (updateRoutine 77 ex_uuid (ex_notes_only\<lparr>ur_steps := Present []\<rparr>)
                                  (signed_in ''ann'') ex_db))) = []
   \<and> SleepRoutineSteps (snd (updateRoutine 77 ex_uuid (ex_notes_only\<lparr>ur_steps := Absent\<rparr>)
                               (signed_in ''ann'') ex_db)) = SleepRoutineSteps ex_db
   \<and> list_all step_readable
        (filter (\<lambda>s. s_routineId s = ur_id ex_notes_only) (SleepRoutineSteps ex_db))
   \<and> (\<exists>routine s ss.
         fst (getRoutineWithSteps (ur_id ex_notes_only) (signed_in ''ann'')
                (snd (updateRoutine 77 ex_uuid (ex_notes_only\<lparr>ur_steps := Absent\<rparr>)
                        (signed_in ''ann'') ex_db)))
         = Inr (routine, s # ss))
   \<and> fst (getRoutineWithSteps (ur_id ex_notes_only) (signed_in ''ann'')
             (snd (updateRoutine 77 ex_uuid (ex_notes_only\<lparr>ur_steps := Present []\<rparr>)
                     (signed_in ''ann'') ex_db)))
     \<noteq> fst (getRoutineWithSteps (ur_id ex_notes_only) (signed_in ''ann'')
             (snd (updateRoutine 77 ex_uuid (ex_notes_only\<lparr>ur_steps := Absent\<rparr>)
                     (signed_in ''ann'') ex_db)))"
proof -
  have user: "ctx_user (signed_in ''ann'') = Some \<lparr>uid = ''ann''\<rparr>"
    by (rule ctx_user_signed_in)
  have owned: "\<exists>r \<in> set (SleepRoutines ex_db).
                 r_id r = ur_id ex_notes_only \<and> r_userId r = uid \<lparr>uid = ''ann''\<rparr>"
    by (simp add: ex_db_def ex_notes_only_def ex_routine_def)
  have has_step: "\<exists>s \<in> set (SleepRoutineSteps ex_db). s_routineId s = ur_id ex_notes_only"
    by (simp add: ex_db_def ex_notes_only_def ex_stored_step_def)
  note all = updateRoutine_empty_steps_vs_omitted [OF user owned refl refl, of 77 ex_uuid]
  note fetches = mp [OF all [THEN conjunct2, THEN conjunct2, THEN conjunct2, THEN conjunct2,
        THEN conjunct2] has_step]
  have readable: "list_all step_readable
        (filter (\<lambda>s. s_routineId s = ur_id ex_notes_only) (SleepRoutineSteps ex_db))"
    by (simp add: ex_db_def ex_notes_only_def ex_stored_step_def step_readable_def
        safe_integer_def)
  have fetched: "\<exists>routine s ss.
         fst (getRoutineWithSteps (ur_id ex_notes_only) (signed_in ''ann'')
                (snd (updateRoutine 77 ex_uuid (ex_notes_only\<lparr>ur_steps := Absent\<rparr>)
                        (signed_in ''ann'') ex_db)))
         = Inr (routine, s # ss)"
    using fetches [THEN conjunct2, THEN conjunct1] readable by (simp only: if_True)
  have a: "filter (\<lambda>s. s_routineId s = ur_id ex_notes_only)
        (SleepRoutineSteps (snd (updateRoutine 77 ex_uuid (ex_notes_only\<lparr>ur_steps := Present []\<rparr>)
                                  (signed_in ''ann'') ex_db))) = []"
    using all by (elim conjE)
  have b: "SleepRoutineSteps (snd (updateRoutine 77 ex_uuid (ex_notes_only\<lparr>ur_steps := Absent\<rparr>)
                               (signed_in ''ann'') ex_db)) = SleepRoutineSteps ex_db"
    using all by (elim conjE)
  have c: "fst (getRoutineWithSteps (ur_id ex_notes_only) (signed_in ''ann'')
             (snd (updateRoutine 77 ex_uuid (ex_notes_only\<lparr>ur_steps := Present []\<rparr>)
                     (signed_in ''ann'') ex_db)))
     \<noteq> fst (getRoutineWithSteps (ur_id ex_notes_only) (signed_in ''ann'')
             (snd (updateRoutine 77 ex_uuid (ex_notes_only\<lparr>ur_steps := Absent\<rparr>)
                     (signed_in ''ann'') ex_db)))"
    by (rule fetches [THEN conjunct2, THEN conjunct2])
  have owned': "\<exists>r \<in> set (SleepRoutines ex_db). r_id r = ur_id ex_notes_only \<and> r_userId r = ''ann''"
    using owned by simp
  show ?thesis
    by (rule conjI [OF user conjI [OF owned' conjI [OF has_step conjI [OF a conjI [OF b
          conjI [OF readable conjI [OF fetched c]]]]]]])
qed

text \<open>
  C5. When the request context carries no user, each of the eight handlers fails with
  \<open>UNAUTHORIZED\<close> and leaves the storage state, statement trace included, exactly as it
  was: no statement, read or write, has been executed.
\<close>

theorem no_user_unauthorized_before_storage:
  assumes "ctx_user ctx = None"
  shows "createRoutine now uuid cr ctx d = (Inl UNAUTHORIZED, d)
       \<and> updateRoutine now uuid ur ctx d = (Inl UNAUTHORIZED, d)
       \<and> archiveRoutine now rid ctx d = (Inl UNAUTHORIZED, d)
       \<and> getRoutineWithSteps rid ctx d = (Inl UNAUTHORIZED, d)
       \<and> listMyRoutines inc ctx d = (Inl UNAUTHORIZED, d)
       \<and> createSleepLog now uuid cl ctx d = (Inl UNAUTHORIZED, d)
       \<and> updateSleepLog ul ctx d = (Inl UNAUTHORIZED, d)
       \<and> listSleepLogs ls ctx d = (Inl UNAUTHORIZED, d)"
  using assms
  by (simp add: requireUser_None createRoutine_def updateRoutine_def archiveRoutine_def
      getRoutineWithSteps_def listMyRoutines_def createSleepLog_def updateSleepLog_def
      listSleepLogs_def)

theorem no_user_unauthorized_before_storage_witness:
  "ctx_user anonymous = None
   \<and> createRoutine 5 ex_uuid ex_weekday anonymous ex_db = (Inl UNAUTHORIZED, ex_db)
   \<and> archiveRoutine 5 ''r1'' anonymous ex_db = (Inl UNAUTHORIZED, ex_db)
   \<and> getRoutineWithSteps ''r1'' anonymous ex_db = (Inl UNAUTHORIZED, ex_db)
   \<and> listMyRoutines True anonymous ex_db = (Inl UNAUTHORIZED, ex_db)
   \<and> ctx_user \<lparr>ctx_locals = None\<rparr> = None
   \<and> listSleepLogs ex_second_page \<lparr>ctx_locals = None\<rparr> ex_log_db = (Inl UNAUTHORIZED, ex_log_db)"
proof -
  have a: "ctx_user anonymous = None" by (simp add: ctx_user_def anonymous_def)
  have b: "ctx_user \<lparr>ctx_locals = None\<rparr> = None" by (simp add: ctx_user_def)
  note first = no_user_unauthorized_before_storage [OF a, where now = 5 and uuid = ex_uuid
      and cr = ex_weekday and d = ex_db and rid = "''r1''" and inc = True]
  note second = no_user_unauthorized_before_storage [OF b, where d = ex_log_db
      and ls = ex_second_page]
  show ?thesis
    by (intro conjI a b
        first [THEN conjunct1]
        first [THEN conjunct2, THEN conjunct2, THEN conjunct1]
        first [THEN conjunct2, THEN conjunct2, THEN conjunct2, THEN conjunct1]
        first [THEN conjunct2, THEN conjunct2, THEN conjunct2, THEN conjunct2, THEN conjunct1]
        second [THEN conjunct2, THEN conjunct2, THEN conjunct2, THEN conjunct2,
                THEN conjunct2, THEN conjunct2, THEN conjunct2])
qed

text \<open>
  C6. For a signed-in caller: when a routine with the identifier is owned by the caller,
  \<open>archiveRoutine\<close> succeeds and leaves the routine present, inactive and stamped with the
  time of the call; a second call succeeds too and changes only \<open>updatedAt\<close> of that routine
  (the flag stays false). When no routine has that identifier and that owner (the identifier
  is unknown or belongs to another user), the call fails with \<open>NOT_FOUND\<close>, not
  \<open>FORBIDDEN\<close>, and the routine rows are as before.
\<close>

theorem archiveRoutine_twice_and_not_found:
  assumes user: "ctx_user ctx = Some u"
    and first: "d1 = snd (archiveRoutine t1 rid ctx d)"
    and second: "d2 = snd (archiveRoutine t2 rid ctx d1)"
  shows "((\<exists>r \<in> set (SleepRoutines d). r_id r = rid \<and> r_userId r = uid u) \<longrightarrow>
            fst (archiveRoutine t1 rid ctx d) = Inr ()
          \<and> (\<exists>r \<in> set (SleepRoutines d1). r_id r = rid \<and> r_userId r = uid u)
          \<and> (\<forall>r \<in> set (SleepRoutines d1). r_id r = rid \<and> r_userId r = uid u \<longrightarrow>
                \<not> r_isActive r \<and> r_updatedAt r = t1)
          \<and> fst (archiveRoutine t2 rid ctx d1) = Inr ()
          \<and> SleepRoutines d2 =
              map (\<lambda>r. if r_id r = rid \<and> r_userId r = uid u then r\<lparr>r_updatedAt := t2\<rparr> else r)
                (SleepRoutines d1)
          \<and> (\<forall>r \<in> set (SleepRoutines d2). r_id r = rid \<and> r_userId r = uid u \<longrightarrow>
                \<not> r_isActive r \<and> r_updatedAt r = t2))
       \<and> (\<not> (\<exists>r \<in> set (SleepRoutines d). r_id r = rid \<and> r_userId r = uid u) \<longrightarrow>
            fst (archiveRoutine t1 rid ctx d) = Inl NOT_FOUND
          \<and> SleepRoutines d1 = SleepRoutines d)"
proof -
  have r1: "SleepRoutines d1 =
         map (\<lambda>r. if r_id r = rid \<and> r_userId r = uid u
                   then r\<lparr>r_isActive := False, r_updatedAt := t1\<rparr> else r) (SleepRoutines d)"
    unfolding first by (rule archiveRoutine_routines [OF user])
  have r2: "SleepRoutines d2 =
         map (\<lambda>r. if r_id r = rid \<and> r_userId r = uid u
                   then r\<lparr>r_isActive := False, r_updatedAt := t2\<rparr> else r) (SleepRoutines d1)"
    unfolding second by (rule archiveRoutine_routines [OF user])
  have inactive1: "\<forall>r \<in> set (SleepRoutines d1). r_id r = rid \<and> r_userId r = uid u \<longrightarrow>
                     \<not> r_isActive r \<and> r_updatedAt r = t1"
  proof (intro ballI impI)
    fix r assume mem: "r \<in> set (SleepRoutines d1)"
      and own: "r_id r = rid \<and> r_userId r = uid u"
    show "\<not> r_isActive r \<and> r_updatedAt r = t1"
      by (rule archived_rows [OF mem [unfolded r1] own])
  qed
  have inactive2: "\<forall>r \<in> set (SleepRoutines d2). r_id r = rid \<and> r_userId r = uid u \<longrightarrow>
                     \<not> r_isActive r \<and> r_updatedAt r = t2"
  proof (intro ballI impI)
    fix r assume mem: "r \<in> set (SleepRoutines d2)"
      and own: "r_id r = rid \<and> r_userId r = uid u"
    show "\<not> r_isActive r \<and> r_updatedAt r = t2"
      by (rule archived_rows [OF mem [unfolded r2] own])
  qed
  have same2: "SleepRoutines d2 =
              map (\<lambda>r. if r_id r = rid \<and> r_userId r = uid u then r\<lparr>r_updatedAt := t2\<rparr> else r)
                (SleepRoutines d1)"
    unfolding r2
  proof (rule map_cong [OF refl])
    fix r assume mem: "r \<in> set (SleepRoutines d1)"
    show "(if r_id r = rid \<and> r_userId r = uid u
           then r\<lparr>r_isActive := False, r_updatedAt := t2\<rparr> else r)
        = (if r_id r = rid \<and> r_userId r = uid u then r\<lparr>r_updatedAt := t2\<rparr> else r)"
    proof (cases "r_id r = rid \<and> r_userId r = uid u")
      case True
      have na: "\<not> r_isActive r" using inactive1 mem True by blast
      show ?thesis by (simp only: if_P [OF True] archive_again [OF na])
    next
      case False
      show ?thesis by (simp only: if_not_P [OF False])
    qed
  qed
  have pos: "(\<exists>r \<in> set (SleepRoutines d). r_id r = rid \<and> r_userId r = uid u) \<longrightarrow>
            fst (archiveRoutine t1 rid ctx d) = Inr ()
          \<and> (\<exists>r \<in> set (SleepRoutines d1). r_id r = rid \<and> r_userId r = uid u)
          \<and> (\<forall>r \<in> set (SleepRoutines d1). r_id r = rid \<and> r_userId r = uid u \<longrightarrow>
                \<not> r_isActive r \<and> r_updatedAt r = t1)
          \<and> fst (archiveRoutine t2 rid ctx d1) = Inr ()
          \<and> SleepRoutines d2 =
              map (\<lambda>r. if r_id r = rid \<and> r_userId r = uid u then r\<lparr>r_updatedAt := t2\<rparr> else r)
                (SleepRoutines d1)
          \<and> (\<forall>r \<in> set (SleepRoutines d2). r_id r = rid \<and> r_userId r = uid u \<longrightarrow>
                \<not> r_isActive r \<and> r_updatedAt r = t2)"
  proof (rule impI)
    assume owned: "\<exists>r \<in> set (SleepRoutines d). r_id r = rid \<and> r_userId r = uid u"
    have still: "\<exists>r \<in> set (SleepRoutines d1). r_id r = rid \<and> r_userId r = uid u"
      unfolding r1
      by (rule owned_after_update
            [where f = "\<lambda>r. r\<lparr>r_isActive := False, r_updatedAt := t1\<rparr>", OF owned archive_keeps_owner])
    have ok1: "fst (archiveRoutine t1 rid ctx d) = Inr ()"
      by (rule archiveRoutine_found [OF user owned])
    have ok2: "fst (archiveRoutine t2 rid ctx d1) = Inr ()"
      by (rule archiveRoutine_found [OF user still])
    show "fst (archiveRoutine t1 rid ctx d) = Inr ()
          \<and> (\<exists>r \<in> set (SleepRoutines d1). r_id r = rid \<and> r_userId r = uid u)
          \<and> (\<forall>r \<in> set (SleepRoutines d1). r_id r = rid \<and> r_userId r = uid u \<longrightarrow>
                \<not> r_isActive r \<and> r_updatedAt r = t1)
          \<and> fst (archiveRoutine t2 rid ctx d1) = Inr ()
          \<and> SleepRoutines d2 =
              map (\<lambda>r. if r_id r = rid \<and> r_userId r = uid u then r\<lparr>r_updatedAt := t2\<rparr> else r)
                (SleepRoutines d1)
          \<and> (\<forall>r \<in> set (SleepRoutines d2). r_id r = rid \<and> r_userId r = uid u \<longrightarrow>
                \<not> r_isActive r \<and> r_updatedAt r = t2)"
      by (rule conjI [OF ok1 conjI [OF still conjI [OF inactive1
            conjI [OF ok2 conjI [OF same2 inactive2]]]]])
  qed
  have neg: "\<not> (\<exists>r \<in> set (SleepRoutines d). r_id r = rid \<and> r_userId r = uid u) \<longrightarrow>
            fst (archiveRoutine t1 rid ctx d) = Inl NOT_FOUND
          \<and> SleepRoutines d1 = SleepRoutines d"
  proof (rule impI)
    assume none: "\<not> (\<exists>r \<in> set (SleepRoutines d). r_id r = rid \<and> r_userId r = uid u)"
    have nf: "fst (archiveRoutine t1 rid ctx d) = Inl NOT_FOUND"
      by (rule archiveRoutine_missing [OF user none])
    have same: "SleepRoutines d1 = SleepRoutines d"
      unfolding r1
    proof (rule map_idI)
      fix r assume "r \<in> set (SleepRoutines d)"
      then have "\<not> (r_id r = rid \<and> r_userId r = uid u)" using none by blast
      then show "(if r_id r = rid \<and> r_userId r = uid u
                  then r\<lparr>r_isActive := False, r_updatedAt := t1\<rparr> else r) = r"
        by (rule if_not_P)
    qed
    show "fst (archiveRoutine t1 rid ctx d) = Inl NOT_FOUND \<and> SleepRoutines d1 = SleepRoutines d"
      by (rule conjI [OF nf same])
  qed
  show ?thesis by (rule conjI [OF pos neg])
qed

theorem archiveRoutine_twice_and_not_found_witness:
  "ctx_user (signed_in ''ann'') = Some \<lparr>uid = ''ann''\<rparr>
   \<and> (\<exists>r \<in> set (SleepRoutines ex_db). r_id r = ''r1'' \<and> r_userId r = ''ann'')
   \<and> fst (archiveRoutine 50 ''r1'' (signed_in ''ann'') ex_db) = Inr ()
   \<and> fst (archiveRoutine 60 ''r1'' (signed_in ''ann'')
             (snd (archiveRoutine 50 ''r1'' (signed_in ''ann'') ex_db))) = Inr ()
   \<and> map (\<lambda>r. (r_id r, r_isActive r, r_updatedAt r))
         (SleepRoutines (snd (archiveRoutine 60 ''r1'' (signed_in ''ann'')
                                (snd (archiveRoutine 50 ''r1'' (signed_in ''ann'') ex_db)))))
     = [(''r1'', False, 60), (''r2'', True, 10)]
   \<and> \<not> (\<exists>r \<in> set (SleepRoutines ex_db). r_id r = ''r2'' \<and> r_userId r = ''ann'')
   \<and> fst (archiveRoutine 50 ''r2'' (signed_in ''ann'') ex_db) = Inl NOT_FOUND
   \<and> fst (archiveRoutine 50 ''r9'' (signed_in ''ann'') ex_db) = Inl NOT_FOUND"
proof -
  have user: "ctx_user (signed_in ''ann'') = Some \<lparr>uid = ''ann''\<rparr>"
    by (rule ctx_user_signed_in)
  have own1: "\<exists>r \<in> set (SleepRoutines ex_db). r_id r = ''r1'' \<and> r_userId r = uid \<lparr>uid = ''ann''\<rparr>"
    by (simp add: ex_db_def ex_routine_def)
  have own2: "\<not> (\<exists>r \<in> set (SleepRoutines ex_db). r_id r = ''r2'' \<and> r_userId r = uid \<lparr>uid = ''ann''\<rparr>)"
    by (simp add: ex_db_def ex_routine_def)
  have own9: "\<not> (\<exists>r \<in> set (SleepRoutines ex_db). r_id r = ''r9'' \<and> r_userId r = uid \<lparr>uid = ''ann''\<rparr>)"
    by (simp add: ex_db_def ex_routine_def)
  note mine = mp [OF conjunct1 [OF archiveRoutine_twice_and_not_found [OF user refl refl,
        where ?t1.0 = 50 and rid = "''r1''" and d = ex_db and ?t2.0 = 60]] own1]
  note foreign = mp [OF conjunct2 [OF archiveRoutine_twice_and_not_found [OF user refl refl,
        where ?t1.0 = 50 and rid = "''r2''" and d = ex_db and ?t2.0 = 60]] own2]
  note unknown = mp [OF conjunct2 [OF archiveRoutine_twice_and_not_found [OF user refl refl,
        where ?t1.0 = 50 and rid = "''r9''" and d = ex_db and ?t2.0 = 60]] own9]
  have a: "\<exists>r \<in> set (SleepRoutines ex_db). r_id r = ''r1'' \<and> r_userId r = ''ann''"
    using own1 by simp
  have b: "fst (archiveRoutine 50 ''r1'' (signed_in ''ann'') ex_db) = Inr ()"
    by (rule conjunct1 [OF mine])
  have c: "fst (archiveRoutine 60 ''r1'' (signed_in ''ann'')
             (snd (archiveRoutine 50 ''r1'' (signed_in ''ann'') ex_db))) = Inr ()"
    by (rule mine [THEN conjunct2, THEN conjunct2, THEN conjunct2, THEN conjunct1])
  have e: "map (\<lambda>r. (r_id r, r_isActive r, r_updatedAt r))
         (SleepRoutines (snd (archiveRoutine 60 ''r1'' (signed_in ''ann'')
                                (snd (archiveRoutine 50 ''r1'' (signed_in ''ann'') ex_db)))))
     = [(''r1'', False, 60), (''r2'', True, 10)]"
    unfolding mine [THEN conjunct2, THEN conjunct2, THEN conjunct2, THEN conjunct2, THEN conjunct1]
      archiveRoutine_routines [OF user]
    by (simp add: ex_db_def ex_routine_def)
  have f: "\<not> (\<exists>r \<in> set (SleepRoutines ex_db). r_id r = ''r2'' \<and> r_userId r = ''ann'')"
    using own2 by simp
  have g: "fst (archiveRoutine 50 ''r2'' (signed_in ''ann'') ex_db) = Inl NOT_FOUND"
    by (rule conjunct1 [OF foreign])
  have h: "fst (archiveRoutine 50 ''r9'' (signed_in ''ann'') ex_db) = Inl NOT_FOUND"
    by (rule conjunct1 [OF unknown])
  show ?thesis
    by (rule conjI [OF user conjI [OF a conjI [OF b conjI [OF c conjI [OF e conjI [OF f
          conjI [OF g h]]]]]]])
qed

text \<open>
  C7. For a signed-in caller \<open>listMyRoutines\<close> succeeds; its items are, each exactly once,
  the routines owned by the caller, restricted to the active ones unless \<open>includeInactive\<close>
  is set (so without the flag no inactive routine is returned, and with it active and inactive
  ones are); the items are in descending order of \<open>updatedAt\<close>; and \<open>total\<close> is the
  number of items.
\<close>

theorem listMyRoutines_filter_order_total:
  assumes user: "ctx_user ctx = Some u"
  shows "\<exists>res. fst (listMyRoutines includeInactive ctx d) = Inr res
           \<and> mset (rl_items res)
             = mset (filter (\<lambda>r. r_userId r = uid u \<and> (includeInactive \<or> r_isActive r))
                       (SleepRoutines d))
           \<and> (\<forall>r \<in> set (rl_items res).
                 r_userId r = uid u \<and> (\<not> includeInactive \<longrightarrow> r_isActive r))
           \<and> sorted_wrt (\<lambda>a b. r_updatedAt b \<le> r_updatedAt a) (rl_items res)
           \<and> rl_total res = length (rl_items res)"
proof -
  let ?rows = "filter (\<lambda>r. r_userId r = uid u \<and> (includeInactive \<or> r_isActive r)) (SleepRoutines d)"
  let ?res = "\<lparr>rl_items = sort_key (\<lambda>r. - r_updatedAt r) ?rows, rl_total = length ?rows\<rparr>"
  have a: "fst (listMyRoutines includeInactive ctx d) = Inr ?res"
    by (rule listMyRoutines_result [OF user])
  have b: "mset (rl_items ?res) = mset ?rows" by simp
  have c: "\<forall>r \<in> set (rl_items ?res). r_userId r = uid u \<and> (\<not> includeInactive \<longrightarrow> r_isActive r)"
    by auto
  have e: "sorted_wrt (\<lambda>a b. r_updatedAt b \<le> r_updatedAt a) (rl_items ?res)"
    using sorted_desc_sort_key [of r_updatedAt ?rows] by simp
  have f: "rl_total ?res = length (rl_items ?res)" by simp
  show ?thesis
    by (rule exI [of _ ?res]) (rule conjI [OF a conjI [OF b conjI [OF c conjI [OF e f]]]])
qed

theorem listMyRoutines_filter_order_total_witness:
  "ctx_user (signed_in ''ann'') = Some \<lparr>uid = ''ann''\<rparr>
   \<and> (\<exists>res. fst (listMyRoutines False (signed_in ''ann'') ex_list_db) = Inr res
          \<and> map r_id (rl_items res) = [''r3'', ''r1''] \<and> rl_total res = 2)
   \<and> (\<exists>res. fst (listMyRoutines True (signed_in ''ann'') ex_list_db) = Inr res
          \<and> map r_id (rl_items res) = [''r2'', ''r3'', ''r1''] \<and> rl_total res = 3)"
proof -
  have user: "ctx_user (signed_in ''ann'') = Some \<lparr>uid = ''ann''\<rparr>"
    by (rule ctx_user_signed_in)
  have ev1: "map r_id (rl_items res) = [''r3'', ''r1'']"
    if "fst (listMyRoutines False (signed_in ''ann'') ex_list_db) = Inr res" for res
    using that unfolding listMyRoutines_result [OF user]
    by (auto simp: ex_list_db_def ex_routine_def)
  have ev2: "map r_id (rl_items res) = [''r2'', ''r3'', ''r1'']"
    if "fst (listMyRoutines True (signed_in ''ann'') ex_list_db) = Inr res" for res
    using that unfolding listMyRoutines_result [OF user]
    by (auto simp: ex_list_db_def ex_routine_def)
  obtain res1 where r1: "fst (listMyRoutines False (signed_in ''ann'') ex_list_db) = Inr res1"
    and t1: "rl_total res1 = length (rl_items res1)"
    using listMyRoutines_filter_order_total [OF user, of False ex_list_db] by blast
  obtain res2 where r2: "fst (listMyRoutines True (signed_in ''ann'') ex_list_db) = Inr res2"
    and t2: "rl_total res2 = length (rl_items res2)"
    using listMyRoutines_filter_order_total [OF user, of True ex_list_db] by blast
  have n1: "rl_total res1 = 2" using t1 arg_cong [OF ev1 [OF r1], of length] by simp
  have n2: "rl_total res2 = 3" using t2 arg_cong [OF ev2 [OF r2], of length] by simp
  have p1: "\<exists>res. fst (listMyRoutines False (signed_in ''ann'') ex_list_db) = Inr res
          \<and> map r_id (rl_items res) = [''r3'', ''r1''] \<and> rl_total res = 2"
    by (rule exI [of _ res1]) (rule conjI [OF r1 conjI [OF ev1 [OF r1] n1]])
  have p2: "\<exists>res. fst (listMyRoutines True (signed_in ''ann'') ex_list_db) = Inr res
          \<and> map r_id (rl_items res) = [''r2'', ''r3'', ''r1''] \<and> rl_total res = 3"
    by (rule exI [of _ res2]) (rule conjI [OF r2 conjI [OF ev2 [OF r2] n2]])
  show ?thesis by (rule conjI [OF user conjI [OF p1 p2]])
qed




text \<open>
  C9, as amended. For a signed-in caller the ownership check of \<open>createSleepLog\<close>, and of
  \<open>updateSleepLog\<close> on a log of the caller, runs exactly when \<open>routineId\<close> is a non-empty
  string: the select on the routines is in the trace in that case only. With \<open>routineId\<close>
  the empty string the check is skipped and the reference goes to the write, the insert being
  the only statement of \<open>createSleepLog\<close>, the select of the log and the update the only ones
  of \<open>updateSleepLog\<close>. The foreign key then decides: when no routine has the empty
  identifier the write is rejected, the call fails with \<open>INTERNAL_SERVER_ERROR\<close> and the
  logs are as before; only if a routine had the empty identifier would the reference be
  stored.
\<close>

theorem empty_routineId_skips_check_and_write_is_rejected:
  assumes user: "ctx_user ctx = Some u"
  shows "trace (snd (createSleepLog now uuid cin ctx d)) =
           trace d @
             (if truthy_string (read_key (cl_routineId cin))
              then SELECT Routines #
                     (if owns_routine u (read_key (cl_routineId cin)) d then [INSERT Logs] else [])
              else [INSERT Logs])
       \<and> (read_key (cl_routineId cin) = Some '''' \<longrightarrow>
            trace (snd (createSleepLog now uuid cin ctx d)) = trace d @ [INSERT Logs]
          \<and> (if references_routine d (Some '''')
              then fst (createSleepLog now uuid cin ctx d) = Inr (uuid 0)
                 \<and> (\<exists>l. SleepLogs (snd (createSleepLog now uuid cin ctx d)) = SleepLogs d @ [l]
                        \<and> l_id l = uuid 0 \<and> l_userId l = uid u \<and> l_routineId l = Some '''')
              else fst (createSleepLog now uuid cin ctx d) = Inl INTERNAL_SERVER_ERROR
                 \<and> SleepLogs (snd (createSleepLog now uuid cin ctx d)) = SleepLogs d))
       \<and> ((\<exists>l \<in> set (SleepLogs d). l_id l = ul_id uin \<and> l_userId l = uid u) \<longrightarrow>
            trace (snd (updateSleepLog uin ctx d)) =
              trace d @ SELECT Logs #
                (if truthy_string (read_key (ul_routineId uin))
                 then SELECT Routines #
                        (if owns_routine u (read_key (ul_routineId uin)) d
                         then (if log_patch_keys (log_updateData uin) > 0 then [UPDATE Logs] else [])
                         else [])
                 else (if log_patch_keys (log_updateData uin) > 0 then [UPDATE Logs] else []))
          \<and> (read_key (ul_routineId uin) = Some '''' \<longrightarrow>
               trace (snd (updateSleepLog uin ctx d)) = trace d @ [SELECT Logs, UPDATE Logs]
             \<and> (if references_routine d (Some '''')
                 then fst (updateSleepLog uin ctx d) = Inr ()
                    \<and> list_all2 (\<lambda>l l'. if l_id l = ul_id uin \<and> l_userId l = uid u
                                         then l_routineId l' = Some '''' else l' = l)
                        (SleepLogs d) (SleepLogs (snd (updateSleepLog uin ctx d)))
                 else fst (updateSleepLog uin ctx d) = Inl INTERNAL_SERVER_ERROR
                    \<and> SleepLogs (snd (updateSleepLog uin ctx d)) = SleepLogs d)))"
proof -
  have a: "trace (snd (createSleepLog now uuid cin ctx d)) =
           trace d @
             (if truthy_string (read_key (cl_routineId cin))
              then SELECT Routines #
                     (if owns_routine u (read_key (cl_routineId cin)) d then [INSERT Logs] else [])
              else [INSERT Logs])"
    by (rule createSleepLog_trace [OF user])
  have b: "read_key (cl_routineId cin) = Some '''' \<longrightarrow>
            trace (snd (createSleepLog now uuid cin ctx d)) = trace d @ [INSERT Logs]
          \<and> (if references_routine d (Some '''')
              then fst (createSleepLog now uuid cin ctx d) = Inr (uuid 0)
                 \<and> (\<exists>l. SleepLogs (snd (createSleepLog now uuid cin ctx d)) = SleepLogs d @ [l]
                        \<and> l_id l = uuid 0 \<and> l_userId l = uid u \<and> l_routineId l = Some '''')
              else fst (createSleepLog now uuid cin ctx d) = Inl INTERNAL_SERVER_ERROR
                 \<and> SleepLogs (snd (createSleepLog now uuid cin ctx d)) = SleepLogs d)"
  proof (rule impI)
    assume blank: "read_key (cl_routineId cin) = Some ''''"
    then have falsy: "\<not> truthy_string (read_key (cl_routineId cin))" by simp
    show "trace (snd (createSleepLog now uuid cin ctx d)) = trace d @ [INSERT Logs]
          \<and> (if references_routine d (Some '''')
              then fst (createSleepLog now uuid cin ctx d) = Inr (uuid 0)
                 \<and> (\<exists>l. SleepLogs (snd (createSleepLog now uuid cin ctx d)) = SleepLogs d @ [l]
                        \<and> l_id l = uuid 0 \<and> l_userId l = uid u \<and> l_routineId l = Some '''')
              else fst (createSleepLog now uuid cin ctx d) = Inl INTERNAL_SERVER_ERROR
                 \<and> SleepLogs (snd (createSleepLog now uuid cin ctx d)) = SleepLogs d)"
      unfolding createSleepLog_unchecked [OF user falsy]
      using blank by (simp add: created_log_def)
  qed
  have c: "(\<exists>l \<in> set (SleepLogs d). l_id l = ul_id uin \<and> l_userId l = uid u) \<longrightarrow>
            trace (snd (updateSleepLog uin ctx d)) =
              trace d @ SELECT Logs #
                (if truthy_string (read_key (ul_routineId uin))
                 then SELECT Routines #
                        (if owns_routine u (read_key (ul_routineId uin)) d
                         then (if log_patch_keys (log_updateData uin) > 0 then [UPDATE Logs] else [])
                         else [])
                 else (if log_patch_keys (log_updateData uin) > 0 then [UPDATE Logs] else []))
          \<and> (read_key (ul_routineId uin) = Some '''' \<longrightarrow>
               trace (snd (updateSleepLog uin ctx d)) = trace d @ [SELECT Logs, UPDATE Logs]
             \<and> (if references_routine d (Some '''')
                 then fst (updateSleepLog uin ctx d) = Inr ()
                    \<and> list_all2 (\<lambda>l l'. if l_id l = ul_id uin \<and> l_userId l = uid u
                                         then l_routineId l' = Some '''' else l' = l)
                        (SleepLogs d) (SleepLogs (snd (updateSleepLog uin ctx d)))
                 else fst (updateSleepLog uin ctx d) = Inl INTERNAL_SERVER_ERROR
                    \<and> SleepLogs (snd (updateSleepLog uin ctx d)) = SleepLogs d))"
  proof (rule impI)
    assume log: "\<exists>l \<in> set (SleepLogs d). l_id l = ul_id uin \<and> l_userId l = uid u"
    have tr: "trace (snd (updateSleepLog uin ctx d)) =
              trace d @ SELECT Logs #
                (if truthy_string (read_key (ul_routineId uin))
                 then SELECT Routines #
                        (if owns_routine u (read_key (ul_routineId uin)) d
                         then (if log_patch_keys (log_updateData uin) > 0 then [UPDATE Logs] else [])
                         else [])
                 else (if log_patch_keys (log_updateData uin) > 0 then [UPDATE Logs] else []))"
    proof (cases "truthy_string (read_key (ul_routineId uin))
                  \<and> \<not> owns_routine u (read_key (ul_routineId uin)) d")
      case True
      then show ?thesis
        using updateSleepLog_unowned [OF user log] by simp
    next
      case False
      then have pass: "truthy_string (read_key (ul_routineId uin)) \<longrightarrow>
                         owns_routine u (read_key (ul_routineId uin)) d"
        by blast
      show ?thesis
        unfolding updateSleepLog_passed [OF user log pass]
        using pass by (simp add: Let_def)
    qed
    have blank: "trace (snd (updateSleepLog uin ctx d)) = trace d @ [SELECT Logs, UPDATE Logs]
             \<and> (if references_routine d (Some '''')
                 then fst (updateSleepLog uin ctx d) = Inr ()
                    \<and> list_all2 (\<lambda>l l'. if l_id l = ul_id uin \<and> l_userId l = uid u
                                         then l_routineId l' = Some '''' else l' = l)
                        (SleepLogs d) (SleepLogs (snd (updateSleepLog uin ctx d)))
                 else fst (updateSleepLog uin ctx d) = Inl INTERNAL_SERVER_ERROR
                    \<and> SleepLogs (snd (updateSleepLog uin ctx d)) = SleepLogs d)"
      if blank: "read_key (ul_routineId uin) = Some ''''"
    proof -
      have pass: "truthy_string (read_key (ul_routineId uin)) \<longrightarrow>
                    owns_routine u (read_key (ul_routineId uin)) d"
        using blank by simp
      have keys: "log_patch_keys (log_updateData uin) \<noteq> 0"
        using log_patch_keys_routineId [OF blank] by simp
      have set_blank: "l_routineId (set_log (log_updateData uin) l) = Some ''''" for l
        using blank by (simp add: set_log_def log_updateData_def copy_key_read)
      show ?thesis
        unfolding updateSleepLog_passed [OF user log pass]
        using blank keys set_blank
        by (simp add: Let_def list.rel_map list_all2_same)
    qed
    show "trace (snd (updateSleepLog uin ctx d)) =
              trace d @ SELECT Logs #
                (if truthy_string (read_key (ul_routineId uin))
                 then SELECT Routines #
                        (if owns_routine u (read_key (ul_routineId uin)) d
                         then (if log_patch_keys (log_updateData uin) > 0 then [UPDATE Logs] else [])
                         else [])
                 else (if log_patch_keys (log_updateData uin) > 0 then [UPDATE Logs] else []))
          \<and> (read_key (ul_routineId uin) = Some '''' \<longrightarrow>
               trace (snd (updateSleepLog uin ctx d)) = trace d @ [SELECT Logs, UPDATE Logs]
             \<and> (if references_routine d (Some '''')
                 then fst (updateSleepLog uin ctx d) = Inr ()
                    \<and> list_all2 (\<lambda>l l'. if l_id l = ul_id uin \<and> l_userId l = uid u
                                         then l_routineId l' = Some '''' else l' = l)
                        (SleepLogs d) (SleepLogs (snd (updateSleepLog uin ctx d)))
                 else fst (updateSleepLog uin ctx d) = Inl INTERNAL_SERVER_ERROR
                    \<and> SleepLogs (snd (updateSleepLog uin ctx d)) = SleepLogs d))"
      by (rule conjI [OF tr impI [OF blank]])
  qed
  show ?thesis by (rule conjI [OF a conjI [OF b c]])
qed

theorem empty_routineId_skips_check_and_write_is_rejected_witness:
  "ctx_user (signed_in ''ann'') = Some \<lparr>uid = ''ann''\<rparr>
   \<and> read_key (cl_routineId ex_create_blank) = Some ''''
   \<and> \<not> references_routine ex_log_db (Some '''')
   \<and> (\<exists>l \<in> set (SleepLogs ex_log_db). l_id l = ul_id ex_update_blank \<and> l_userId l = ''ann'')
   \<and> read_key (ul_routineId ex_update_blank) = Some ''''
   \<and> trace (snd (createSleepLog 5 ex_uuid ex_create_blank (signed_in ''ann'') ex_log_db))
     = trace ex_log_db @ [INSERT Logs]
   \<and> fst (createSleepLog 5 ex_uuid ex_create_blank (signed_in ''ann'') ex_log_db)
     = Inl INTERNAL_SERVER_ERROR
   \<and> SleepLogs (snd (createSleepLog 5 ex_uuid ex_create_blank (signed_in ''ann'') ex_log_db))
     = SleepLogs ex_log_db
   \<and> trace (snd (updateSleepLog ex_update_blank (signed_in ''ann'') ex_log_db))
     = trace ex_log_db @ [SELECT Logs, UPDATE Logs]
   \<and> fst (updateSleepLog ex_update_blank (signed_in ''ann'') ex_log_db)
     = Inl INTERNAL_SERVER_ERROR
   \<and> SleepLogs (snd (updateSleepLog ex_update_blank (signed_in ''ann'') ex_log_db))
     = SleepLogs ex_log_db
   \<and> trace (snd (createSleepLog 5 ex_uuid (ex_create_log (Present ''r1'')) (signed_in ''ann'')
                   ex_log_db))
     = trace ex_log_db @ [SELECT Routines, INSERT Logs]"
proof -
  have user: "ctx_user (signed_in ''ann'') = Some \<lparr>uid = ''ann''\<rparr>"
    by (rule ctx_user_signed_in)
  have cb: "read_key (cl_routineId ex_create_blank) = Some ''''"
    by (simp add: ex_create_blank_def)
  have ub: "read_key (ul_routineId ex_update_blank) = Some ''''"
    by (simp add: ex_update_blank_def)
  have dangling: "\<not> references_routine ex_log_db (Some '''')"
    by (simp add: references_routine_def ex_log_db_def ex_routine_def)
  have log: "\<exists>l \<in> set (SleepLogs ex_log_db).
               l_id l = ul_id ex_update_blank \<and> l_userId l = uid \<lparr>uid = ''ann''\<rparr>"
    by (simp add: ex_log_db_def ex_log_def ex_update_blank_def)
  have log': "\<exists>l \<in> set (SleepLogs ex_log_db). l_id l = ul_id ex_update_blank \<and> l_userId l = ''ann''"
    using log by simp
  note all = empty_routineId_skips_check_and_write_is_rejected [OF user,
      where now = 5 and uuid = ex_uuid and cin = ex_create_blank and d = ex_log_db
        and uin = ex_update_blank]
  note create = mp [OF all [THEN conjunct2, THEN conjunct1] cb]
  note update = mp [OF mp [OF all [THEN conjunct2, THEN conjunct2] log, THEN conjunct2] ub]
  have c1: "trace (snd (createSleepLog 5 ex_uuid ex_create_blank (signed_in ''ann'') ex_log_db))
            = trace ex_log_db @ [INSERT Logs]"
    by (rule create [THEN conjunct1])
  have c23: "fst (createSleepLog 5 ex_uuid ex_create_blank (signed_in ''ann'') ex_log_db)
             = Inl INTERNAL_SERVER_ERROR
           \<and> SleepLogs (snd (createSleepLog 5 ex_uuid ex_create_blank (signed_in ''ann'') ex_log_db))
             = SleepLogs ex_log_db"
    using create [THEN conjunct2] dangling by (simp only: if_False)
  have u1: "trace (snd (updateSleepLog ex_update_blank (signed_in ''ann'') ex_log_db))
            = trace ex_log_db @ [SELECT Logs, UPDATE Logs]"
    by (rule update [THEN conjunct1])
  have u23: "fst (updateSleepLog ex_update_blank (signed_in ''ann'') ex_log_db)
             = Inl INTERNAL_SERVER_ERROR
           \<and> SleepLogs (snd (updateSleepLog ex_update_blank (signed_in ''ann'') ex_log_db))
             = SleepLogs ex_log_db"
    using update [THEN conjunct2] dangling by (simp only: if_False)
  note owned = empty_routineId_skips_check_and_write_is_rejected [OF user,
      where now = 5 and uuid = ex_uuid and cin = "ex_create_log (Present ''r1'')"
        and d = ex_log_db, THEN conjunct1]
  have o1: "owns_routine \<lparr>uid = ''ann''\<rparr>
              (read_key (cl_routineId (ex_create_log (Present ''r1'')))) ex_log_db"
    by (simp add: owns_routine_def ex_create_log_def ex_log_db_def ex_routine_def)
  have t1: "truthy_string (read_key (cl_routineId (ex_create_log (Present ''r1''))))"
    by (simp add: ex_create_log_def)
  have checked: "trace (snd (createSleepLog 5 ex_uuid (ex_create_log (Present ''r1''))
                               (signed_in ''ann'') ex_log_db))
                 = trace ex_log_db @ [SELECT Routines, INSERT Logs]"
    unfolding owned using o1 t1 by (simp only: if_True)
  show ?thesis
    by (rule conjI [OF user conjI [OF cb conjI [OF dangling conjI [OF log' conjI [OF ub
          conjI [OF c1 conjI [OF c23 [THEN conjunct1] conjI [OF c23 [THEN conjunct2]
          conjI [OF u1 conjI [OF u23 [THEN conjunct1] conjI [OF u23 [THEN conjunct2]
          checked]]]]]]]]]]])
qed

text \<open>
  The claim as stated fails: with the empty-string reference nothing is written. The insert
  of \<open>createSleepLog\<close> and the update of \<open>updateSleepLog\<close> are rejected, and the stored
  log keeps the reference it had.
\<close>

theorem empty_routineId_not_written_counterexample:
  "read_key (cl_routineId ex_create_blank) = Some ''''
   \<and> fst (createSleepLog 5 ex_uuid ex_create_blank (signed_in ''ann'') ex_db)
     = Inl INTERNAL_SERVER_ERROR
   \<and> SleepLogs (snd (createSleepLog 5 ex_uuid ex_create_blank (signed_in ''ann'') ex_db)) = []
   \<and> read_key (ul_routineId ex_update_blank) = Some ''''
   \<and> fst (updateSleepLog ex_update_blank (signed_in ''ann'') ex_log_db)
     = Inl INTERNAL_SERVER_ERROR
   \<and> map (\<lambda>l. (l_id l, l_routineId l))
       (SleepLogs (snd (updateSleepLog ex_update_blank (signed_in ''ann'') ex_log_db)))
     = [(''l1'', Some ''r1''), (''l2'', None), (''l3'', Some ''r1''), (''l4'', Some ''r2'')]"
proof -
  have user: "ctx_user (signed_in ''ann'') = Some \<lparr>uid = ''ann''\<rparr>"
    by (rule ctx_user_signed_in)
  have cb: "read_key (cl_routineId ex_create_blank) = Some ''''"
    by (simp add: ex_create_blank_def)
  have ub: "read_key (ul_routineId ex_update_blank) = Some ''''"
    by (simp add: ex_update_blank_def)
  have falsy: "\<not> truthy_string (read_key (cl_routineId ex_create_blank))"
    unfolding cb by simp
  have a: "fst (createSleepLog 5 ex_uuid ex_create_blank (signed_in ''ann'') ex_db)
           = Inl INTERNAL_SERVER_ERROR"
    unfolding createSleepLog_unchecked [OF user falsy]
    by (simp add: cb references_routine_def ex_db_def ex_routine_def)
  have b: "SleepLogs (snd (createSleepLog 5 ex_uuid ex_create_blank (signed_in ''ann'') ex_db)) = []"
    unfolding createSleepLog_unchecked [OF user falsy]
    by (simp add: cb references_routine_def ex_db_def ex_routine_def)
  have log: "\<exists>l \<in> set (SleepLogs ex_log_db).
               l_id l = ul_id ex_update_blank \<and> l_userId l = uid \<lparr>uid = ''ann''\<rparr>"
    by (simp add: ex_log_db_def ex_log_def ex_update_blank_def)
  have pass: "truthy_string (read_key (ul_routineId ex_update_blank)) \<longrightarrow>
                owns_routine \<lparr>uid = ''ann''\<rparr> (read_key (ul_routineId ex_update_blank)) ex_log_db"
    unfolding ub by simp
  have keys: "log_patch_keys (log_updateData ex_update_blank) \<noteq> 0"
    using log_patch_keys_routineId [OF ub] by simp
  have dangling: "\<not> references_routine ex_log_db (read_key (ul_routineId ex_update_blank))"
    unfolding ub by (simp add: references_routine_def ex_log_db_def ex_routine_def)
  have c: "fst (updateSleepLog ex_update_blank (signed_in ''ann'') ex_log_db)
           = Inl INTERNAL_SERVER_ERROR"
    unfolding updateSleepLog_passed [OF user log pass]
    using keys dangling by (simp add: Let_def)
  have e: "map (\<lambda>l. (l_id l, l_routineId l))
       (SleepLogs (snd (updateSleepLog ex_update_blank (signed_in ''ann'') ex_log_db)))
     = [(''l1'', Some ''r1''), (''l2'', None), (''l3'', Some ''r1''), (''l4'', Some ''r2'')]"
    unfolding updateSleepLog_passed [OF user log pass]
    using keys dangling by (simp add: Let_def ex_log_db_def ex_log_def)
  show ?thesis
    by (rule conjI [OF cb conjI [OF a conjI [OF b conjI [OF ub conjI [OF c e]]]]])
qed

text \<open>
  C10. \<open>createRoutine\<close> stamps the whole operation with one timestamp: the routine row it
  appends has \<open>createdAt = updatedAt\<close>, and every step row it appends (one per supplied
  step) carries the routine's identifier and the routine's \<open>createdAt\<close>.
\<close>

theorem createRoutine_single_timestamp:
  assumes "ctx_user ctx = Some u"
  shows "\<exists>r ss. fst (createRoutine now uuid input ctx d) = Inr (r_id r)
           \<and> SleepRoutines (snd (createRoutine now uuid input ctx d)) = SleepRoutines d @ [r]
           \<and> r_createdAt r = r_updatedAt r
           \<and> SleepRoutineSteps (snd (createRoutine now uuid input ctx d)) = SleepRoutineSteps d @ ss
           \<and> length ss = (case read_key (cr_steps input) of None \<Rightarrow> 0 | Some steps \<Rightarrow> length steps)
           \<and> (\<forall>s \<in> set ss. s_routineId s = r_id r \<and> s_createdAt s = r_createdAt r)"
proof -
  let ?ss = "created_steps now uuid input"
  have len: "length ?ss = (case read_key (cr_steps input) of None \<Rightarrow> 0 | Some steps \<Rightarrow> length steps)"
    by (simp add: created_steps_def length_stepValues split: option.split)
  have each: "\<forall>s \<in> set ?ss. s_routineId s = uuid 0 \<and> s_createdAt s = now"
    by (auto simp: created_steps_def stepValues_routineId stepValues_createdAt split: option.splits)
  show ?thesis
    using createRoutine_fst [OF assms, of now uuid input d]
      createRoutine_routines [OF assms, of now uuid input d]
      createRoutine_steps [OF assms, of now uuid input d] len each
    by (intro exI [of _ "\<lparr>r_id = uuid 0, r_userId = uid u, r_name = cr_name input,
       r_goalDescription = read_key (cr_goalDescription input),
       r_targetBedTimeLocal = read_key (cr_targetBedTimeLocal input),
       r_targetWakeTimeLocal = read_key (cr_targetWakeTimeLocal input),
       r_timeZone = read_key (cr_timeZone input),
       r_notes = read_key (cr_notes input),
       r_isActive = True, r_createdAt = now, r_updatedAt = now\<rparr>"] exI [of _ ?ss]) simp
qed

theorem createRoutine_single_timestamp_witness:
  "ctx_user (signed_in ''ann'') = Some \<lparr>uid = ''ann''\<rparr>
   \<and> (\<exists>r ss. fst (createRoutine 1000 ex_uuid ex_weekday (signed_in ''ann'') empty_db) = Inr (r_id r)
         \<and> SleepRoutines (snd (createRoutine 1000 ex_uuid ex_weekday (signed_in ''ann'') empty_db)) = [r]
         \<and> r_createdAt r = r_updatedAt r
         \<and> SleepRoutineSteps (snd (createRoutine 1000 ex_uuid ex_weekday (signed_in ''ann'') empty_db)) = ss
         \<and> length ss = 2
         \<and> (\<forall>s \<in> set ss. s_routineId s = r_id r \<and> s_createdAt s = r_createdAt r))"
  using createRoutine_single_timestamp [OF ctx_user_signed_in, where now = 1000 and uuid = ex_uuid
      and input = ex_weekday and d = empty_db and name1 = "''ann''"]
  by (auto simp: ctx_user_signed_in empty_db_def ex_weekday_def)

end
